theory Spec2Isabelle
  imports Main "HOL-Library.Sublist"
begin

section \<open>JavaScript strings\<close>

text \<open>
  A JavaScript string is a sequence of UTF-16 code units. The model keeps the code units
  as natural numbers (0 to 65535 for a real string; the model does not bound them, so a
  statement about every \<open>jsstring\<close> covers every JavaScript string). A string literal of
  the source is written \<open>lit ''...''\<close>: all literals of the handlers are ASCII.
\<close>

type_synonym jsstring = "nat list"

definition lit :: "string \<Rightarrow> jsstring" where
  "lit s = map of_char s"

text \<open>\<^verbatim>\<open>s.includes(t)\<close>: \<open>t\<close> occurs in \<open>s\<close> as a contiguous run of code units.\<close>

fun includes_js :: "'a list \<Rightarrow> 'a list \<Rightarrow> bool" where
  "includes_js [] t = prefix t []"
| "includes_js (c # s) t = (prefix t (c # s) \<or> includes_js s t)"

text \<open>\<^verbatim>\<open>xs.join(sep)\<close> on an array of strings.\<close>

fun join :: "'a list \<Rightarrow> 'a list list \<Rightarrow> 'a list" where
  "join sep [] = []"
| "join sep [x] = x"
| "join sep (x # y # ys) = x @ sep @ join sep (y # ys)"

text \<open>
  White space and line terminators of ECMAScript: what \<^verbatim>\<open>\s\<close> matches and what
  \<^verbatim>\<open>trim()\<close> strips (TAB, LF, VT, FF, CR, SP, NBSP, U+1680, U+2000 to U+200A, U+2028,
  U+2029, U+202F, U+205F, U+3000, U+FEFF).
\<close>

definition is_space :: "nat \<Rightarrow> bool" where
  "is_space u \<longleftrightarrow>
     u \<in> set [9, 10, 11, 12, 13, 32, 160, 5760, 8232, 8233, 8239, 8287, 12288, 65279]
     \<or> (8192 \<le> u \<and> u \<le> 8202)"

definition trim :: "jsstring \<Rightarrow> jsstring" where
  "trim s = rev (dropWhile is_space (rev (dropWhile is_space s)))"

text \<open>Index of the first occurrence of \<open>t\<close> in \<open>s\<close> (\<^verbatim>\<open>indexOf\<close>, with None for -1).\<close>

fun index_of :: "'a list \<Rightarrow> 'a list \<Rightarrow> nat option" where
  "index_of [] t = (if prefix t [] then Some 0 else None)"
| "index_of (c # s) t = (if prefix t (c # s) then Some 0 else map_option Suc (index_of s t))"

text \<open>Number of positions of \<open>s\<close> at which an occurrence of \<open>t\<close> starts.\<close>

fun occurrences :: "'a list \<Rightarrow> 'a list \<Rightarrow> nat" where
  "occurrences [] t = (if prefix t [] then 1 else 0)"
| "occurrences (c # s) t = (if prefix t (c # s) then 1 else 0) + occurrences s t"

section \<open>Regular expressions\<close>

text \<open>
  The fragment of ECMAScript regular expressions that the handlers use: literal
  characters, character classes and escapes (a predicate on code units), sequencing,
  the greedy quantifiers \<^verbatim>\<open>?\<close> and \<^verbatim>\<open>*\<close> (\<^verbatim>\<open>r+\<close> is \<^verbatim>\<open>rr*\<close>), the lazy \<^verbatim>\<open>*?\<close>, and one
  capturing group (every pattern of the source has at most one).
\<close>

datatype 'a regex =
    Eps
  | Lit 'a
  | Cls "'a \<Rightarrow> bool"
  | Seq "'a regex" "'a regex"
  | Opt "'a regex"
  | Star "'a regex"
  | LazyStar "'a regex"
  | Group "'a regex"

definition Plus :: "'a regex \<Rightarrow> 'a regex" where
  "Plus r = Seq r (Star r)"

text \<open>A literal word, and a pattern written as the list of its parts.\<close>

fun word :: "'a list \<Rightarrow> 'a regex" where
  "word [] = Eps"
| "word (c # cs) = Seq (Lit c) (word cs)"

fun seq :: "'a regex list \<Rightarrow> 'a regex" where
  "seq [] = Eps"
| "seq (r # rs) = Seq r (seq rs)"

fun has_group :: "'a regex \<Rightarrow> bool" where
  "has_group Eps = False"
| "has_group (Lit c) = False"
| "has_group (Cls p) = False"
| "has_group (Seq a b) = (has_group a \<or> has_group b)"
| "has_group (Opt a) = has_group a"
| "has_group (Star a) = has_group a"
| "has_group (LazyStar a) = has_group a"
| "has_group (Group a) = True"

text \<open>
  The backtracking matcher. A state is the input that is left and the value of capture 1
  (None is \<^verbatim>\<open>undefined\<close>). \<open>run r st\<close> lists the states in which a match of \<open>r\<close> from
  \<open>st\<close> can end, in the order in which the backtracking of ECMAScript tries them: the
  head of the list is the match the engine returns. A quantifier resets the captures of
  the groups it contains at the start of each iteration, and gives up an iteration that
  consumed nothing.
\<close>

type_synonym 'a mstate = "'a list \<times> 'a list option"

definition reset :: "'a regex \<Rightarrow> 'a list option \<Rightarrow> 'a list option" where
  "reset a k = (if has_group a then None else k)"

function run :: "'a regex \<Rightarrow> 'a mstate \<Rightarrow> 'a mstate list" where
  "run Eps (s, k) = [(s, k)]"
| "run (Lit c) (s, k) = (case s of [] \<Rightarrow> [] | x # xs \<Rightarrow> if x = c then [(xs, k)] else [])"
| "run (Cls p) (s, k) = (case s of [] \<Rightarrow> [] | x # xs \<Rightarrow> if p x then [(xs, k)] else [])"
| "run (Seq a b) (s, k) = concat (map (run b) (run a (s, k)))"
| "run (Opt a) (s, k) =
     filter (\<lambda>st. length (fst st) < length s) (run a (s, reset a k)) @ [(s, k)]"
| "run (Star a) (s, k) =
     concat (map (\<lambda>st. if length (fst st) < length s then run (Star a) st else [])
                 (run a (s, reset a k)))
     @ [(s, k)]"
| "run (LazyStar a) (s, k) =
     (s, k) #
     concat (map (\<lambda>st. if length (fst st) < length s then run (LazyStar a) st else [])
                 (run a (s, reset a k)))"
| "run (Group a) (s, k) =
     map (\<lambda>st. (fst st, Some (take (length s - length (fst st)) s))) (run a (s, k))"
  by pat_completeness auto
termination
  by (relation "inv_image (less_than <*lex*> less_than) (\<lambda>(r, s, k). (size r, length s))")
     auto

text \<open>
  One attempt at the start of \<open>s\<close>: the matched text, capture 1 and the input after the
  match.
\<close>

definition match_at :: "'a regex \<Rightarrow> 'a list \<Rightarrow> ('a list \<times> 'a list option \<times> 'a list) option" where
  "match_at r s =
     (case run r (s, None) of
        [] \<Rightarrow> None
      | st # _ \<Rightarrow> Some (take (length s - length (fst st)) s, snd st, fst st))"

text \<open>
  \<^verbatim>\<open>s.match(r)\<close> for a pattern without the \<^verbatim>\<open>g\<close> flag: the first position at which the
  pattern matches; the result is the matched text and capture 1 (None is \<^verbatim>\<open>null\<close>).
\<close>

fun match_first :: "'a regex \<Rightarrow> 'a list \<Rightarrow> ('a list \<times> 'a list option) option" where
  "match_first r [] = map_option (\<lambda>(m, k, rest). (m, k)) (match_at r [])"
| "match_first r (c # cs) =
     (case match_at r (c # cs) of
        Some (m, k, rest) \<Rightarrow> Some (m, k)
      | None \<Rightarrow> match_first r cs)"

text \<open>
  \<^verbatim>\<open>s.match(r)\<close> for a pattern with the \<^verbatim>\<open>g\<close> flag, followed by \<^verbatim>\<open>|| []\<close>: the matched
  texts from left to right, each search starting where the last match ended (one code
  unit further after an empty match); the empty list when nothing matches.
\<close>

function match_all :: "'a regex \<Rightarrow> 'a list \<Rightarrow> 'a list list" where
  "match_all r s =
     (case match_at r s of
        None \<Rightarrow> (case s of [] \<Rightarrow> [] | c # cs \<Rightarrow> match_all r cs)
      | Some (m, k, rest) \<Rightarrow>
          m # (if m = [] then (case s of [] \<Rightarrow> [] | c # cs \<Rightarrow> match_all r cs)
               else match_all r rest))"
  by pat_completeness auto
termination
  by (relation "measure (\<lambda>(r, s). length s)")
     (auto simp: match_at_def split: list.splits)

text \<open>
  The replacement text of \<^verbatim>\<open>replace\<close> (GetSubstitution of ECMAScript): in the template,
  \<^verbatim>\<open>$$\<close> is a dollar sign, \<^verbatim>\<open>$&\<close> the matched text, \<^verbatim>\<open>$`\<close> the input before the match,
  \<^verbatim>\<open>$'\<close> the input after it, and \<^verbatim>\<open>$n\<close> or \<^verbatim>\<open>$nn\<close> the capture of that number when the
  pattern has that many groups (the empty string when the group took no part in the
  match); any other dollar sign stands for itself. \<open>caps\<close> lists the captures: no entry
  for a string pattern or a pattern without groups.
\<close>

definition is_digit :: "nat \<Rightarrow> bool" where
  "is_digit u \<longleftrightarrow> 48 \<le> u \<and> u \<le> 57"

definition capture_text :: "jsstring option list \<Rightarrow> nat \<Rightarrow> jsstring" where
  "capture_text caps n = (case caps ! (n - 1) of None \<Rightarrow> [] | Some c \<Rightarrow> c)"

fun get_substitution ::
  "jsstring \<Rightarrow> jsstring \<Rightarrow> jsstring \<Rightarrow> jsstring option list \<Rightarrow> jsstring \<Rightarrow> jsstring" where
  "get_substitution matched preceding following caps [] = []"
| "get_substitution matched preceding following caps [c] = [c]"
| "get_substitution matched preceding following caps (c # d # t) =
     (if c \<noteq> 36 then c # get_substitution matched preceding following caps (d # t)
      else if d = 36 then 36 # get_substitution matched preceding following caps t
      else if d = 38 then matched @ get_substitution matched preceding following caps t
      else if d = 96 then preceding @ get_substitution matched preceding following caps t
      else if d = 39 then following @ get_substitution matched preceding following caps t
      else if is_digit d then
        (let n1 = d - 48;
             two = (case t of
                      [] \<Rightarrow> None
                    | e # t' \<Rightarrow>
                        if is_digit e \<and> 1 \<le> 10 * n1 + (e - 48) \<and> 10 * n1 + (e - 48) \<le> length caps
                        then Some (10 * n1 + (e - 48)) else None)
         in case two of
              Some n2 \<Rightarrow> capture_text caps n2 @ get_substitution matched preceding following caps (tl t)
            | None \<Rightarrow>
                if 1 \<le> n1 \<and> n1 \<le> length caps
                then capture_text caps n1 @ get_substitution matched preceding following caps t
                else 36 # d # get_substitution matched preceding following caps t)
      else 36 # get_substitution matched preceding following caps (d # t))"

text \<open>
  \<^verbatim>\<open>s.replace(r, template)\<close> for a pattern with the \<^verbatim>\<open>g\<close> flag: every match, found as by
  \<open>match_all\<close>, is replaced by its substitution; the text between matches is kept.
  \<open>preceding\<close> is the input already passed.
\<close>

function replace_all :: "nat regex \<Rightarrow> jsstring \<Rightarrow> jsstring \<Rightarrow> jsstring \<Rightarrow> jsstring" where
  "replace_all r template preceding s =
     (case match_at r s of
        None \<Rightarrow>
          (case s of [] \<Rightarrow> [] | c # cs \<Rightarrow> c # replace_all r template (preceding @ [c]) cs)
      | Some (m, k, rest) \<Rightarrow>
          get_substitution m preceding rest (if has_group r then [k] else []) template @
          (if m = [] then
             (case s of [] \<Rightarrow> [] | c # cs \<Rightarrow> c # replace_all r template (preceding @ [c]) cs)
           else replace_all r template (preceding @ m) rest))"
  by pat_completeness auto
termination
  by (relation "measure (\<lambda>(r, t, b, s). length s)")
     (auto simp: match_at_def split: list.splits)

definition replace_regex :: "jsstring \<Rightarrow> nat regex \<Rightarrow> jsstring \<Rightarrow> jsstring" where
  "replace_regex s r template = replace_all r template [] s"

text \<open>
  \<^verbatim>\<open>s.replace(pattern, template)\<close> for a string pattern: only the first occurrence of the
  pattern, taken literally, is replaced; there are no captures.
\<close>

definition replace_string :: "jsstring \<Rightarrow> jsstring \<Rightarrow> jsstring \<Rightarrow> jsstring" where
  "replace_string s pattern template =
     (case index_of s pattern of
        None \<Rightarrow> s
      | Some i \<Rightarrow>
          take i s @
          get_substitution pattern (take i s) (drop (i + length pattern) s) [] template @
          drop (i + length pattern) s)"

text \<open>
  The language of a pattern, without the engine: the texts the pattern denotes. A text
  has a match of the pattern when one of its contiguous parts is in the language.
\<close>

inductive_set star :: "'a list set \<Rightarrow> 'a list set" for L :: "'a list set" where
  star_Nil: "[] \<in> star L"
| star_App: "u \<in> L \<Longrightarrow> v \<in> star L \<Longrightarrow> u @ v \<in> star L"

fun lang :: "'a regex \<Rightarrow> 'a list set" where
  "lang Eps = {[]}"
| "lang (Lit c) = {[c]}"
| "lang (Cls p) = {[x] | x. p x}"
| "lang (Seq a b) = {u @ v | u v. u \<in> lang a \<and> v \<in> lang b}"
| "lang (Opt a) = insert [] (lang a)"
| "lang (Star a) = star (lang a)"
| "lang (LazyStar a) = star (lang a)"
| "lang (Group a) = lang a"

definition has_match :: "'a regex \<Rightarrow> 'a list \<Rightarrow> bool" where
  "has_match r s \<longleftrightarrow> (\<exists>ps m ss. s = ps @ m @ ss \<and> m \<in> lang r)"

section \<open>The server: results, errors and the file system\<close>

text \<open>
  What a handler can catch: an \<^verbatim>\<open>Error\<close> object with its message, or any other thrown
  value with its \<^verbatim>\<open>String(...)\<close> text. A computation that may throw returns
  \<open>js_error + 'a\<close>, and \<^verbatim>\<open>try { body } catch (error) { handler }\<close> is \<open>try_catch\<close>.
\<close>

datatype js_error = Error jsstring | Thrown jsstring

fun error_text :: "js_error \<Rightarrow> jsstring" where
  "error_text (Error message) = message"
| "error_text (Thrown v) = v"

definition try_catch :: "(js_error + 'a) \<Rightarrow> (js_error \<Rightarrow> js_error + 'a) \<Rightarrow> js_error + 'a" where
  "try_catch body handler = (case body of Inl e \<Rightarrow> handler e | Inr v \<Rightarrow> Inr v)"

text \<open>
  The file system as the handlers see it: \<^verbatim>\<open>fs.access(path)\<close> and
  \<^verbatim>\<open>fs.readFile(path, "utf8")\<close>, each of which either throws or returns.
\<close>

record fs =
  access :: "jsstring \<Rightarrow> js_error + unit"
  readFile :: "jsstring \<Rightarrow> js_error + jsstring"

text \<open>The value of a variable of a resource template: a string or an array of strings.\<close>

datatype template_var = Single jsstring | Multiple "jsstring list"

record resource_content =
  uri :: jsstring
  text_of :: jsstring

record resource_result =
  contents :: "resource_content list"

text \<open>
  The objects that the tools serialise with \<^verbatim>\<open>JSON.stringify(..., null, 2)\<close>. The text of
  a tool result is either a plain string or such a serialised object; the model keeps
  the object. Every content entry of the source has type \<^verbatim>\<open>"text"\<close>.
\<close>

record analysis =
  file_of :: jsstring
  vpcConstructs :: nat
  matches :: "jsstring list"
  config :: "jsstring option"
  migrationReady :: bool

record ai_analysis =
  ai_file :: jsstring
  analysisMethod :: jsstring
  prompt :: jsstring
  migrationGuide :: jsstring
  note_of :: jsstring

record approaches =
  migrationApproaches :: "jsstring list"

record validation_issue =
  issue :: jsstring
  severity :: jsstring
  recommendation :: jsstring

record validation =
  status :: jsstring
  issues :: "validation_issue list"
  recommendations :: "jsstring list"

datatype tool_text =
    Plain jsstring
  | Json_analysis analysis
  | Json_ai_analysis ai_analysis
  | Json_approaches approaches
  | Json_validation validation

record tool_result =
  content :: "tool_text list"
  isError :: "bool option"

section \<open>Resource cdk-files\<close>

fun String_js :: "template_var \<Rightarrow> jsstring" where
  "String_js (Single s) = s"
| "String_js (Multiple xs) = join (lit '','') xs"

definition cdk_files :: "fs \<Rightarrow> jsstring \<Rightarrow> template_var \<Rightarrow> js_error + resource_result" where
  "cdk_files env href filePath =
     try_catch
       (let filePathStr = (case filePath of Single s \<Rightarrow> s | Multiple xs \<Rightarrow> String_js filePath)
        in case readFile env filePathStr of
             Inl e \<Rightarrow> Inl e
           | Inr c \<Rightarrow> Inr \<lparr>contents = [\<lparr>uri = href, text_of = c\<rparr>]\<rparr>)
       (\<lambda>error.
          Inr \<lparr>contents = [\<lparr>uri = href, text_of = lit ''Error reading file: '' @ error_text error\<rparr>]\<rparr>)"

section \<open>Tool analyze-vpc\<close>

text \<open>\<^verbatim>\<open>/new\s+(?:ec2\.)?Vpc\s*\(/g\<close>\<close>

definition vpcPattern :: "nat regex" where
  "vpcPattern =
     seq [word (lit ''new''), Plus (Cls is_space), Opt (word (lit ''ec2.'')),
          word (lit ''Vpc''), Star (Cls is_space), word (lit ''('')]"

text \<open>\<^verbatim>\<open>/new\s+(?:ec2\.)?Vpc\s*\([^{]*({\s*[\s\S]*?}\s*)\)/\<close>\<close>

definition fullVpcPattern :: "nat regex" where
  "fullVpcPattern =
     seq [word (lit ''new''), Plus (Cls is_space), Opt (word (lit ''ec2.'')),
          word (lit ''Vpc''), Star (Cls is_space), word (lit ''(''),
          Star (Cls (\<lambda>u. u \<noteq> 123)),
          Group (seq [word (lit ''{''), Star (Cls is_space), LazyStar (Cls (\<lambda>u. True)),
                      word (lit ''}''), Star (Cls is_space)]),
          word (lit '')'')]"

text \<open>
  The handler. The tool's input is validated as a string before the handler runs. The
  lines written to the error stream are not part of the result and are left out.
\<close>

definition analyze_vpc :: "fs \<Rightarrow> jsstring \<Rightarrow> js_error + tool_result" where
  "analyze_vpc env filePath =
     try_catch
       (let filePathStr = filePath
        in case access env filePathStr of
             Inl err \<Rightarrow>
               Inr \<lparr>content =
                      [Plain (lit ''Error: File does not exist or is not accessible: '' @ filePathStr)],
                    isError = Some True\<rparr>
           | Inr _ \<Rightarrow>
               (case readFile env filePathStr of
                  Inl e \<Rightarrow> Inl e
                | Inr c \<Rightarrow>
                    (let vpcMatches = match_all vpcPattern c;
                         vpcCount = length vpcMatches;
                         vpcConfig =
                           (if vpcCount > 0 then
                              (case match_first fullVpcPattern c of
                                 Some (m, Some g) \<Rightarrow> if g \<noteq> [] then Some (trim g) else None
                               | _ \<Rightarrow> None)
                            else None);
                         result = \<lparr>file_of = filePathStr, vpcConstructs = vpcCount,
                                   matches = vpcMatches, config = vpcConfig,
                                   migrationReady = (vpcCount > 0)\<rparr>
                     in Inr \<lparr>content = [Json_analysis result], isError = None\<rparr>)))
       (\<lambda>error.
          Inr \<lparr>content = [Plain (lit ''Error analyzing file: '' @ error_text error)],
               isError = Some True\<rparr>)"

subsection \<open>The variant with the placeholder for an external analysis\<close>

text \<open>
  The second build of the server has the same access check and read, and then returns a
  placeholder: the first 500 code units of a prompt built around the text of the file.
\<close>

definition analysisPrompt :: "jsstring \<Rightarrow> jsstring" where
  "analysisPrompt c =
     lit ''\<newline>      You are an expert AWS CDK code analyzer. Analyze the following TypeScript/JavaScript code and identify all VPC-related constructs and configurations.\<newline>      \<newline>      Focus on:\<newline>      1. VPC constructs (new ec2.Vpc or new Vpc)\<newline>      2. VPC imports (Vpc.fromVpcAttributes, Vpc.fromLookup)\<newline>      3. Subnet configurations (subnetConfiguration property)\<newline>      4. NAT Gateway configurations (natGateways property)\<newline>      5. CIDR block configurations (cidr or cidrMask properties)\<newline>      6. Availability Zone configurations (maxAzs property)\<newline>      7. VPN Gateway configurations (enableVpnGateway method)\<newline>      8. VPC Endpoint configurations (addGatewayEndpoint, addInterfaceEndpoint methods)\<newline>      \<newline>      For each VPC construct found, extract:\<newline>      - The construct ID/name\<newline>      - The complete configuration object\<newline>      - Line number or approximate position in the code\<newline>      \<newline>      Analyze the complexity of migration to VPC V2:\<newline>      - Simple: Basic VPC with minimal configuration\<newline>      - Moderate: VPC with multiple subnet types or moderate complexity\<newline>      - Complex: VPC with VPN gateways or many VPC endpoints\<newline>      \<newline>      Format your response as a JSON object with the following structure:\<newline>      {\<newline>        \"vpcConstructs\": number of VPC constructs found,\<newline>        \"vpcImports\": number of VPC imports found,\<newline>        \"totalVpcReferences\": total number of VPC references,\<newline>        \"components\": {\<newline>          \"subnetConfigurations\": count,\<newline>          \"natGateways\": count,\<newline>          \"cidrBlocks\": count,\<newline>          \"maxAzs\": count,\<newline>          \"vpnGateways\": count,\<newline>          \"vpcEndpoints\": count\<newline>        },\<newline>        \"vpcConfigs\": [\<newline>          {\<newline>            \"constructId\": \"name of the construct\",\<newline>            \"configBlock\": \"complete configuration object as string\",\<newline>            \"position\": approximate position in the code\<newline>          }\<newline>        ],\<newline>        \"subnetAnalysis\": [\<newline>          {\<newline>            \"types\": [\"PUBLIC\", \"PRIVATE_WITH_NAT\", etc.],\<newline>            \"count\": number of subnet configurations\<newline>          }\<newline>        ],\<newline>        \"migrationComplexity\": \"Simple|Moderate|Complex\",\<newline>        \"migrationReady\": boolean indicating if migration is possible\<newline>      }\<newline>      \<newline>      Here's the code to analyze:\<newline>      \<newline>      '' @
     c @
     lit ''\<newline>      ''"

definition analyze_vpc_placeholder :: "fs \<Rightarrow> jsstring \<Rightarrow> js_error + tool_result" where
  "analyze_vpc_placeholder env filePath =
     try_catch
       (let filePathStr = filePath
        in case access env filePathStr of
             Inl err \<Rightarrow>
               Inr \<lparr>content =
                      [Plain (lit ''Error: File does not exist or is not accessible: '' @ filePathStr)],
                    isError = Some True\<rparr>
           | Inr _ \<Rightarrow>
               (case readFile env filePathStr of
                  Inl e \<Rightarrow> Inl e
                | Inr c \<Rightarrow>
                    (let placeholderResult =
                           \<lparr>ai_file = filePathStr,
                            analysisMethod = lit ''AI-based analysis'',
                            prompt = take 500 (analysisPrompt c) @ lit ''...'',
                            migrationGuide = lit ''/Users/shikagg/migration_mcp/vpc-migration-guide.md'',
                            note_of = lit ''This is a placeholder. In a real implementation, this would be replaced with the AI service response.''\<rparr>
                     in Inr \<lparr>content = [Json_ai_analysis placeholderResult], isError = None\<rparr>)))
       (\<lambda>error.
          Inr \<lparr>content = [Plain (lit ''Error analyzing file: '' @ error_text error)],
               isError = Some True\<rparr>)"

section \<open>Tool get-vpc-migration-recommendations\<close>

definition get_vpc_migration_recommendations :: "jsstring \<Rightarrow> tool_result" where
  "get_vpc_migration_recommendations cdkCode =
     (let hasSubnets = includes_js cdkCode (lit ''subnet'');
          hasIpAddresses =
            (includes_js cdkCode (lit ''cidr'') \<or> includes_js cdkCode (lit ''ipAddress''));
          recommendations = [];
          recommendations =
            (if hasSubnets then
               recommendations @
               [lit ''Subnet Configuration: define these subnet as new SubnetV2 with same availability zone, CIDR range and subnet type, pass in vpc as prop'',
                lit ''IPv4 CIDR block for subnet is defined using prop ipv4CidrBlock'',
                lit ''Ipv4 CIDR block to defined as new IpCidr(<ipaddress>)'']
             else recommendations);
          recommendations =
            (if hasIpAddresses then
               recommendations @
               [lit ''IP Addressing: Migrate to property primaryAddressBlock: IpAddresses.ipv4(cidr)'']
             else recommendations);
          recommendations =
            (if length recommendations = 0 then
               recommendations @
               [lit ''Basic VPC Migration: Use the updated VPC constructor with required parameters'']
             else recommendations)
      in \<lparr>content = [Json_approaches \<lparr>migrationApproaches = recommendations\<rparr>],
          isError = None\<rparr>)"

section \<open>Tool refactor-vpc\<close>

text \<open>\<^verbatim>\<open>/subnetConfiguration:\s*\[([^\]]+)\]/g\<close>\<close>

definition subnetPattern :: "nat regex" where
  "subnetPattern =
     seq [word (lit ''subnetConfiguration:''), Star (Cls is_space), word (lit ''[''),
          Group (Plus (Cls (\<lambda>u. u \<noteq> 93))), word (lit '']'')]"

definition refactor_vpc :: "jsstring \<Rightarrow> jsstring \<Rightarrow> tool_result" where
  "refactor_vpc cdkCode migrationApproach =
     (let refactoredCode = cdkCode;
          refactoredCode =
            (if includes_js migrationApproach (lit ''Subnet'') then
               replace_regex refactoredCode subnetPattern (lit ''new SubnetV2([$1])'')
             else refactoredCode);
          refactoredCode =
            (if includes_js migrationApproach (lit ''cidr'') then
               replace_string refactoredCode
                 (lit ''ipAddresses: IpAddresses.cidr('$1')'')
                 (lit ''primaryAddressBlock:  IpAddresses.ipv4('$1')'')
             else refactoredCode);
          refactoredCode =
            (if includes_js migrationApproach (lit ''IPAM'') then
               replace_string refactoredCode
                 (lit ''ipAddresses: IpAddresses.awsIpamAllocation('$1')'')
                 (lit ''primaryAddressBlock: Ip4Addresses.ipv4Ipam('$1')'')
             else refactoredCode);
          requiredImports =
            [lit ''import { VpcV2, SubnetV2, IpAddresses } from '@aws-cdk/aws-ec2-alpha';''];
          importSection = join (lit ''\<newline>'') requiredImports;
          refactoredCode =
            (if \<not> includes_js refactoredCode (lit ''SubnetConfiguration'') \<or>
                \<not> includes_js refactoredCode (lit ''IpAddresses'') \<or>
                \<not> includes_js refactoredCode (lit ''Ipam'')
             then importSection @ lit ''\<newline>\<newline>'' @ refactoredCode
             else refactoredCode)
      in \<lparr>content = [Plain refactoredCode], isError = None\<rparr>)"

subsection \<open>The variant with the placeholder for an external refactoring\<close>

text \<open>
  The second build of the server reads a guide file (a failure of that read is caught) and
  builds a prompt from it, of which only the length is logged; the prompt is left out
  here. The result is the code with an import statement in front, unless the code already
  names the package, and a fixed comment in front of that.
\<close>

definition refactor_vpc_placeholder :: "fs \<Rightarrow> jsstring \<Rightarrow> jsstring \<Rightarrow> js_error + tool_result" where
  "refactor_vpc_placeholder env cdkCode migrationApproach =
     try_catch
       (let migrationGuideContent =
              (case readFile env (lit ''/Users/shikagg/migration_mcp/vpc-migration-guide.md'') of
                 Inl guideErr \<Rightarrow> lit ''Migration guide not available''
               | Inr g \<Rightarrow> g);
            placeholderRefactoredCode = cdkCode;
            placeholderRefactoredCode =
              (if \<not> includes_js placeholderRefactoredCode (lit ''@aws-cdk/aws-ec2-alpha'') then
                 lit ''import { VpcV2, SubnetV2, IpAddresses, IpCidr, RouteTable } from '@aws-cdk/aws-ec2-alpha';\<newline>\<newline>'' @
                 placeholderRefactoredCode
               else placeholderRefactoredCode);
            placeholderRefactoredCode =
              lit ''// This is a placeholder for the AI-refactored code\<newline>// In a real implementation, this would be replaced with the AI service response\<newline>\<newline>'' @
              placeholderRefactoredCode
        in Inr \<lparr>content = [Plain placeholderRefactoredCode], isError = None\<rparr>)
       (\<lambda>error.
          Inr \<lparr>content = [Plain (lit ''Error refactoring code: '' @ error_text error)],
               isError = Some True\<rparr>)"

section \<open>Tool validate-vpc-migration\<close>

definition validate_vpc_migration :: "jsstring \<Rightarrow> jsstring \<Rightarrow> tool_result" where
  "validate_vpc_migration originalCode migratedCode =
     (let validationResults = [];
          validationResults =
            (if \<not> includes_js migratedCode (lit ''VpcV2'') then
               validationResults @
               [\<lparr>issue = lit ''Missing VpcV2 construct'',
                 severity = lit ''Error'',
                 recommendation = lit ''Replace Vpc with VpcV2 from @aws-cdk/aws-ec2-alpha''\<rparr>]
             else validationResults);
          validationResults =
            (if includes_js originalCode (lit ''cidrMask'') \<and>
                \<not> includes_js migratedCode (lit ''primaryAddressBlock'') then
               validationResults @
               [\<lparr>issue = lit ''IP addressing not properly migrated'',
                 severity = lit ''Error'',
                 recommendation = lit ''Use primaryAddressBlock: IpAddresses.ipv4() instead of cidrMask''\<rparr>]
             else validationResults);
          validationResults =
            (if includes_js originalCode (lit ''subnetConfiguration'') \<and>
                \<not> includes_js migratedCode (lit ''SubnetV2'') then
               validationResults @
               [\<lparr>issue = lit ''Subnet configuration not properly migrated'',
                 severity = lit ''Warning'',
                 recommendation = lit ''Use SubnetV2 constructs instead of subnetConfiguration array''\<rparr>]
             else validationResults);
          validationResults =
            (if includes_js originalCode (lit ''natGateways'') \<and>
                \<not> includes_js migratedCode (lit ''addNatGateway'') then
               validationResults @
               [\<lparr>issue = lit ''NAT gateway configuration not properly migrated'',
                 severity = lit ''Warning'',
                 recommendation = lit ''Use vpc.addNatGateway() method instead of natGateways property''\<rparr>]
             else validationResults);
          status = (if length validationResults = 0 then lit ''PASS'' else lit ''FAIL'')
      in \<lparr>content =
            [Json_validation
               \<lparr>status = status,
                issues = validationResults,
                recommendations =
                  (if length validationResults = 0 then
                     [lit ''Migration successful! Test your infrastructure code to ensure it works as expected.'']
                   else map recommendation validationResults)\<rparr>],
          isError = None\<rparr>)"

section \<open>Tool generate-migration-docs\<close>

definition generate_migration_docs :: "jsstring \<Rightarrow> jsstring \<Rightarrow> tool_result" where
  "generate_migration_docs originalCode migratedCode =
     (let changes = [];
          changes =
            (if includes_js originalCode (lit ''Vpc'') \<and> includes_js migratedCode (lit ''VpcV2'')
             then changes @ [lit ''Upgraded from Vpc to VpcV2 construct'']
             else changes);
          changes =
            (if includes_js originalCode (lit ''cidrMask'') \<and>
                includes_js migratedCode (lit ''primaryAddressBlock'')
             then changes @ [lit ''Migrated CIDR configuration to use primaryAddressBlock'']
             else changes);
          changes =
            (if includes_js originalCode (lit ''subnetConfiguration'') \<and>
                includes_js migratedCode (lit ''SubnetV2'')
             then changes @ [lit ''Replaced subnetConfiguration array with explicit SubnetV2 constructs'']
             else changes);
          changes =
            (if includes_js originalCode (lit ''natGateways'') \<and>
                includes_js migratedCode (lit ''addNatGateway'')
             then changes @ [lit ''Replaced natGateways property with addNatGateway() method calls'']
             else changes);
          documentation =
            lit ''\<newline># VPC Migration Documentation\<newline>\<newline>## Changes Applied\<newline>\<newline>'' @
            join (lit ''\<newline>'') (map (\<lambda>change. lit ''- '' @ change) changes) @
            lit ''\<newline>\<newline>## Migration Details\<newline>\<newline>### Original Code\<newline>```typescript\<newline>'' @
            originalCode @
            lit ''\<newline>```\<newline>\<newline>### Migrated Code\<newline>```typescript\<newline>'' @
            migratedCode @
            lit ''\<newline>```\<newline>\<newline>## Testing Recommendations\<newline>\<newline>1. Deploy the migrated infrastructure to a test environment\<newline>2. Verify network connectivity between subnets\<newline>3. Validate that internet connectivity works as expected\<newline>4. Check that any resources depending on the VPC can still connect properly\<newline>\<newline>## References\<newline>\<newline>- [AWS CDK VpcV2 API Reference](https://docs.aws.amazon.com/cdk/api/v2/docs/aws-cdk-lib.aws_ec2.Vpc.html)\<newline>- [AWS CDK Migration Guide](https://docs.aws.amazon.com/cdk/v2/guide/migrating-v2.html)\<newline>''
      in \<lparr>content = [Plain documentation], isError = None\<rparr>)"

section \<open>Facts about strings\<close>

lemma includes_js_sublist: "includes_js s t = sublist t s"
  by (induction s) (auto simp: sublist_Cons_right)

lemma includes_js_iff: "includes_js s t \<longleftrightarrow> (\<exists>ps ss. s = ps @ t @ ss)"
  by (simp add: includes_js_sublist sublist_def)

lemma lit_eq_iff: "lit a = lit b \<longleftrightarrow> a = b"
  unfolding lit_def by (rule inj_map_eq_map[OF inj_of_char])

section \<open>Properties of get-vpc-migration-recommendations\<close>

lemma accumulate_recommendations:
  assumes "distinct [s1, s2, s3, ip, fb]"
  shows "\<exists>rs.
     (let recommendations = [];
          recommendations =
            (if hasSubnets then recommendations @ [s1, s2, s3] else recommendations);
          recommendations =
            (if hasIpAddresses then recommendations @ [ip] else recommendations);
          recommendations =
            (if length recommendations = 0 then recommendations @ [fb] else recommendations)
      in \<lparr>content = [Json_approaches \<lparr>migrationApproaches = recommendations\<rparr>],
          isError = None\<rparr>)
      = \<lparr>content = [Json_approaches \<lparr>migrationApproaches = rs\<rparr>], isError = None\<rparr> \<and>
     (s1 \<in> set rs \<longleftrightarrow> hasSubnets) \<and>
     (s2 \<in> set rs \<longleftrightarrow> hasSubnets) \<and>
     (s3 \<in> set rs \<longleftrightarrow> hasSubnets) \<and>
     (ip \<in> set rs \<longleftrightarrow> hasIpAddresses) \<and>
     (rs = [fb] \<longleftrightarrow> \<not> hasSubnets \<and> \<not> hasIpAddresses)"
  using assms by (auto simp: Let_def)

text \<open>
  C5. The list of recommendations holds each of the three subnet recommendations exactly
  when the code contains "subnet", the IP addressing recommendation exactly when the
  code contains "cidr" or "ipAddress", and it is the single fallback recommendation
  exactly when the code contains none of the three markers.
\<close>

theorem recommendations_by_marker:
  "\<exists>rs. get_vpc_migration_recommendations cdkCode =
          \<lparr>content = [Json_approaches \<lparr>migrationApproaches = rs\<rparr>], isError = None\<rparr> \<and>
     (lit ''Subnet Configuration: define these subnet as new SubnetV2 with same availability zone, CIDR range and subnet type, pass in vpc as prop'' \<in> set rs
        \<longleftrightarrow> includes_js cdkCode (lit ''subnet'')) \<and>
     (lit ''IPv4 CIDR block for subnet is defined using prop ipv4CidrBlock'' \<in> set rs
        \<longleftrightarrow> includes_js cdkCode (lit ''subnet'')) \<and>
     (lit ''Ipv4 CIDR block to defined as new IpCidr(<ipaddress>)'' \<in> set rs
        \<longleftrightarrow> includes_js cdkCode (lit ''subnet'')) \<and>
     (lit ''IP Addressing: Migrate to property primaryAddressBlock: IpAddresses.ipv4(cidr)'' \<in> set rs
        \<longleftrightarrow> includes_js cdkCode (lit ''cidr'') \<or> includes_js cdkCode (lit ''ipAddress'')) \<and>
     (rs = [lit ''Basic VPC Migration: Use the updated VPC constructor with required parameters'']
        \<longleftrightarrow> \<not> includes_js cdkCode (lit ''subnet'') \<and>
            \<not> (includes_js cdkCode (lit ''cidr'') \<or> includes_js cdkCode (lit ''ipAddress'')))"
  unfolding get_vpc_migration_recommendations_def Let_def [of "includes_js cdkCode (lit ''subnet'')"]
    Let_def [of "includes_js cdkCode (lit ''cidr'') \<or> includes_js cdkCode (lit ''ipAddress'')"]
  by (rule accumulate_recommendations) (simp add: lit_eq_iff)


theorem recommendations_by_marker_witness:
  "includes_js (lit ''my subnet config'') (lit ''subnet'') \<and>
   \<not> (includes_js (lit ''my subnet config'') (lit ''cidr'') \<or>
      includes_js (lit ''my subnet config'') (lit ''ipAddress'')) \<and>
   (\<exists>rs. get_vpc_migration_recommendations (lit ''my subnet config'') =
          \<lparr>content = [Json_approaches \<lparr>migrationApproaches = rs\<rparr>], isError = None\<rparr> \<and>
      lit ''Subnet Configuration: define these subnet as new SubnetV2 with same availability zone, CIDR range and subnet type, pass in vpc as prop'' \<in> set rs \<and>
      lit ''IPv4 CIDR block for subnet is defined using prop ipv4CidrBlock'' \<in> set rs \<and>
      lit ''Ipv4 CIDR block to defined as new IpCidr(<ipaddress>)'' \<in> set rs \<and>
      lit ''IP Addressing: Migrate to property primaryAddressBlock: IpAddresses.ipv4(cidr)'' \<notin> set rs \<and>
      rs \<noteq> [lit ''Basic VPC Migration: Use the updated VPC constructor with required parameters''])"
proof -
  have m: "includes_js (lit ''my subnet config'') (lit ''subnet'')"
    "\<not> (includes_js (lit ''my subnet config'') (lit ''cidr'') \<or>
        includes_js (lit ''my subnet config'') (lit ''ipAddress''))"
    by (simp_all add: lit_def)
  from recommendations_by_marker [of "lit ''my subnet config''"] m show ?thesis
    by blast
qed

section \<open>Properties of validate-vpc-migration\<close>

lemma checklist:
  fixes w x y z :: validation_issue
  assumes "P \<noteq> F"
  shows "\<exists>v.
     (let validationResults = [];
          validationResults = (if a then validationResults @ [w] else validationResults);
          validationResults = (if b then validationResults @ [x] else validationResults);
          validationResults = (if c then validationResults @ [y] else validationResults);
          validationResults = (if d then validationResults @ [z] else validationResults);
          status = (if length validationResults = 0 then P else F)
      in \<lparr>content =
            [Json_validation
               \<lparr>status = status,
                issues = validationResults,
                recommendations =
                  (if length validationResults = 0 then [M]
                   else map recommendation validationResults)\<rparr>],
          isError = None\<rparr>) = \<lparr>content = [Json_validation v], isError = None\<rparr> \<and>
       (status v = P \<or> status v = F) \<and>
       (status v = P \<longleftrightarrow> issues v = []) \<and>
       (a \<longrightarrow> status v = F \<and> w \<in> set (issues v))"
  using assms by (simp add: Let_def)

text \<open>
  C1. The status of a validation is "PASS" exactly when its issue list is empty (and
  "FAIL" otherwise); when the migrated code does not contain "VpcV2", the status is
  "FAIL" and the issue list holds an issue "Missing VpcV2 construct".
\<close>

theorem validate_status:
  "\<exists>v. validate_vpc_migration originalCode migratedCode =
         \<lparr>content = [Json_validation v], isError = None\<rparr> \<and>
       (status v = lit ''PASS'' \<or> status v = lit ''FAIL'') \<and>
       (status v = lit ''PASS'' \<longleftrightarrow> issues v = []) \<and>
       (\<not> includes_js migratedCode (lit ''VpcV2'') \<longrightarrow>
          status v = lit ''FAIL'' \<and>
          (\<exists>i \<in> set (issues v). issue i = lit ''Missing VpcV2 construct''))"
proof -
  have ne: "lit ''PASS'' \<noteq> lit ''FAIL''" by (simp add: lit_eq_iff)
  have "\<exists>v. validate_vpc_migration originalCode migratedCode =
         \<lparr>content = [Json_validation v], isError = None\<rparr> \<and>
       (status v = lit ''PASS'' \<or> status v = lit ''FAIL'') \<and>
       (status v = lit ''PASS'' \<longleftrightarrow> issues v = []) \<and>
       (\<not> includes_js migratedCode (lit ''VpcV2'') \<longrightarrow>
          status v = lit ''FAIL'' \<and>
          \<lparr>issue = lit ''Missing VpcV2 construct'', severity = lit ''Error'',
           recommendation = lit ''Replace Vpc with VpcV2 from @aws-cdk/aws-ec2-alpha''\<rparr>
            \<in> set (issues v))"
    unfolding validate_vpc_migration_def by (rule checklist [OF ne])
  then obtain v where v: "validate_vpc_migration originalCode migratedCode =
         \<lparr>content = [Json_validation v], isError = None\<rparr>"
       "status v = lit ''PASS'' \<or> status v = lit ''FAIL''"
       "status v = lit ''PASS'' \<longleftrightarrow> issues v = []"
       "\<not> includes_js migratedCode (lit ''VpcV2'') \<longrightarrow>
          status v = lit ''FAIL'' \<and>
          \<lparr>issue = lit ''Missing VpcV2 construct'', severity = lit ''Error'',
           recommendation = lit ''Replace Vpc with VpcV2 from @aws-cdk/aws-ec2-alpha''\<rparr>
            \<in> set (issues v)"
    by blast
  have sel: "issue \<lparr>issue = lit ''Missing VpcV2 construct'', severity = lit ''Error'',
           recommendation = lit ''Replace Vpc with VpcV2 from @aws-cdk/aws-ec2-alpha''\<rparr>
       = lit ''Missing VpcV2 construct''" by simp
  from v(4) sel have "\<not> includes_js migratedCode (lit ''VpcV2'') \<longrightarrow>
          status v = lit ''FAIL'' \<and>
          (\<exists>i \<in> set (issues v). issue i = lit ''Missing VpcV2 construct'')"
    by blast
  with v(1,2,3) show ?thesis by blast
qed

theorem validate_status_witness:
  "\<not> includes_js (lit ''new ec2.Vpc(this, 'Net')'') (lit ''VpcV2'') \<and>
   (\<exists>v. validate_vpc_migration (lit ''new ec2.Vpc(this, 'Net')'') (lit ''new ec2.Vpc(this, 'Net')'') =
          \<lparr>content = [Json_validation v], isError = None\<rparr> \<and>
        status v = lit ''FAIL'' \<and> issues v \<noteq> [] \<and>
        (\<exists>i. i \<in> set (issues v) \<and> issue i = lit ''Missing VpcV2 construct''))"
proof -
  have absent: "\<not> includes_js (lit ''new ec2.Vpc(this, 'Net')'') (lit ''VpcV2'')"
    by (simp add: lit_def)
  from validate_status [of "lit ''new ec2.Vpc(this, 'Net')''" "lit ''new ec2.Vpc(this, 'Net')''"]
  obtain v where v:
    "validate_vpc_migration (lit ''new ec2.Vpc(this, 'Net')'') (lit ''new ec2.Vpc(this, 'Net')'') =
       \<lparr>content = [Json_validation v], isError = None\<rparr>"
    "status v = lit ''PASS'' \<longleftrightarrow> issues v = []"
    "\<not> includes_js (lit ''new ec2.Vpc(this, 'Net')'') (lit ''VpcV2'') \<longrightarrow>
       status v = lit ''FAIL'' \<and> (\<exists>i \<in> set (issues v). issue i = lit ''Missing VpcV2 construct'')"
    by blast
  from v(3) absent have f: "status v = lit ''FAIL''"
    and i: "\<exists>i \<in> set (issues v). issue i = lit ''Missing VpcV2 construct''" by blast+
  from f v(2) have "issues v \<noteq> []" by (simp add: lit_eq_iff)
  with absent v(1) f i show ?thesis by blast
qed

section \<open>Properties of generate-migration-docs\<close>

lemma template_shape:
  assumes "m1 = a1 @ fence" and "m2 = close @ a2 @ fence" and "t = close @ checklist @ refs"
  shows "\<exists>doc pre mid.
     \<lparr>content = [Plain (h @ j @ m1 @ originalCode @ m2 @ migratedCode @ t)], isError = None\<rparr> =
       \<lparr>content = [Plain doc], isError = None\<rparr> \<and>
     doc = pre @ fence @ originalCode @ close @ mid @ fence @ migratedCode @ close @
           checklist @ refs"
proof -
  have "h @ j @ m1 @ originalCode @ m2 @ migratedCode @ t =
        (h @ j @ a1) @ fence @ originalCode @ close @ a2 @ fence @ migratedCode @ close @
        checklist @ refs"
    using assms by simp
  then show ?thesis by blast
qed

text \<open>
  C7. The documentation is a text in which the original code stands verbatim between the
  opening fence "```typescript" with its line break and a line break with the closing
  fence "```", and later the migrated code between the same two fences, whatever the two
  snippets contain; the text ends with the fixed testing checklist and the fixed
  references.
\<close>

theorem docs_contain_snippets:
  "\<exists>doc pre mid.
     generate_migration_docs originalCode migratedCode =
       \<lparr>content = [Plain doc], isError = None\<rparr> \<and>
     doc = pre @ lit ''```typescript\<newline>'' @ originalCode @ lit ''\<newline>```'' @
           mid @ lit ''```typescript\<newline>'' @ migratedCode @ lit ''\<newline>```'' @
           lit ''\<newline>\<newline>## Testing Recommendations\<newline>\<newline>1. Deploy the migrated infrastructure to a test environment\<newline>2. Verify network connectivity between subnets\<newline>3. Validate that internet connectivity works as expected\<newline>4. Check that any resources depending on the VPC can still connect properly\<newline>'' @
           lit ''\<newline>## References\<newline>\<newline>- [AWS CDK VpcV2 API Reference](https://docs.aws.amazon.com/cdk/api/v2/docs/aws-cdk-lib.aws_ec2.Vpc.html)\<newline>- [AWS CDK Migration Guide](https://docs.aws.amazon.com/cdk/v2/guide/migrating-v2.html)\<newline>''"
  unfolding generate_migration_docs_def Let_def
  by (rule template_shape
        [where ?a1.0 = "lit ''\<newline>\<newline>## Migration Details\<newline>\<newline>### Original Code\<newline>''"
           and ?a2.0 = "lit ''\<newline>\<newline>### Migrated Code\<newline>''"])
     (simp_all add: lit_def)

theorem docs_contain_snippets_witness:
  "\<exists>doc pre mid.
     generate_migration_docs (lit ''```'') (lit ''new VpcV2(this, 'Net')'') =
       \<lparr>content = [Plain doc], isError = None\<rparr> \<and>
     doc = pre @ lit ''```typescript\<newline>'' @ lit ''```'' @ lit ''\<newline>```'' @
           mid @ lit ''```typescript\<newline>'' @ lit ''new VpcV2(this, 'Net')'' @ lit ''\<newline>```'' @
           lit ''\<newline>\<newline>## Testing Recommendations\<newline>\<newline>1. Deploy the migrated infrastructure to a test environment\<newline>2. Verify network connectivity between subnets\<newline>3. Validate that internet connectivity works as expected\<newline>4. Check that any resources depending on the VPC can still connect properly\<newline>'' @
           lit ''\<newline>## References\<newline>\<newline>- [AWS CDK VpcV2 API Reference](https://docs.aws.amazon.com/cdk/api/v2/docs/aws-cdk-lib.aws_ec2.Vpc.html)\<newline>- [AWS CDK Migration Guide](https://docs.aws.amazon.com/cdk/v2/guide/migrating-v2.html)\<newline>''"
  by (rule docs_contain_snippets)

section \<open>Properties of the resource cdk-files\<close>

text \<open>
  C3. For every requested path and every file system, the handler returns a result and
  throws nothing; the result has one content entry; when the read succeeds, its text is
  the text read, and when the read throws, its text begins with "Error reading file:".
\<close>

theorem cdk_files_never_throws:
  "\<exists>t. cdk_files env href filePath = Inr \<lparr>contents = [\<lparr>uri = href, text_of = t\<rparr>]\<rparr> \<and>
       (\<forall>c. readFile env (String_js filePath) = Inr c \<longrightarrow> t = c) \<and>
       (\<forall>e. readFile env (String_js filePath) = Inl e \<longrightarrow>
            prefix (lit ''Error reading file:'') t \<and>
            t = lit ''Error reading file: '' @ error_text e)"
proof (cases "readFile env (String_js filePath)")
  case (Inl e)
  have "prefix (lit ''Error reading file:'') (lit ''Error reading file: '' @ error_text e)"
    by (simp add: lit_def)
  with Inl show ?thesis
    by (cases filePath) (simp_all add: cdk_files_def try_catch_def)
next
  case (Inr c)
  then show ?thesis
    by (cases filePath) (simp_all add: cdk_files_def try_catch_def)
qed

theorem cdk_files_never_throws_witness:
  "(\<exists>t. cdk_files \<lparr>access = (\<lambda>p. Inr ()), readFile = (\<lambda>p. Inr (lit ''const a = 1;''))\<rparr>
            (lit ''file:///app.ts'') (Single (lit ''/app.ts'')) =
          Inr \<lparr>contents = [\<lparr>uri = lit ''file:///app.ts'', text_of = t\<rparr>]\<rparr> \<and>
        t = lit ''const a = 1;'') \<and>
   (\<exists>t. cdk_files \<lparr>access = (\<lambda>p. Inl (Error (lit ''ENOENT''))),
                    readFile = (\<lambda>p. Inl (Error (lit ''ENOENT'')))\<rparr>
            (lit ''file:///missing.ts'') (Single (lit ''/missing.ts'')) =
          Inr \<lparr>contents = [\<lparr>uri = lit ''file:///missing.ts'', text_of = t\<rparr>]\<rparr> \<and>
        prefix (lit ''Error reading file:'') t \<and>
        t = lit ''Error reading file: '' @ lit ''ENOENT'')"
proof -
  have ok: "readFile \<lparr>access = (\<lambda>p. Inr ()), readFile = (\<lambda>p. Inr (lit ''const a = 1;''))\<rparr>
              (String_js (Single (lit ''/app.ts''))) = Inr (lit ''const a = 1;'')"
    by simp
  have ko: "readFile \<lparr>access = (\<lambda>p. Inl (Error (lit ''ENOENT''))),
                      readFile = (\<lambda>p. Inl (Error (lit ''ENOENT'')))\<rparr>
              (String_js (Single (lit ''/missing.ts''))) = Inl (Error (lit ''ENOENT''))"
    by simp
  from cdk_files_never_throws
         [of "\<lparr>access = (\<lambda>p. Inr ()), readFile = (\<lambda>p. Inr (lit ''const a = 1;''))\<rparr>"
             "lit ''file:///app.ts''" "Single (lit ''/app.ts'')"] ok
  have one: "\<exists>t. cdk_files \<lparr>access = (\<lambda>p. Inr ()), readFile = (\<lambda>p. Inr (lit ''const a = 1;''))\<rparr>
            (lit ''file:///app.ts'') (Single (lit ''/app.ts'')) =
          Inr \<lparr>contents = [\<lparr>uri = lit ''file:///app.ts'', text_of = t\<rparr>]\<rparr> \<and>
        t = lit ''const a = 1;''"
    by blast
  from cdk_files_never_throws
         [of "\<lparr>access = (\<lambda>p. Inl (Error (lit ''ENOENT''))),
               readFile = (\<lambda>p. Inl (Error (lit ''ENOENT'')))\<rparr>"
             "lit ''file:///missing.ts''" "Single (lit ''/missing.ts'')"] ko
  have two: "\<exists>t. cdk_files \<lparr>access = (\<lambda>p. Inl (Error (lit ''ENOENT''))),
                    readFile = (\<lambda>p. Inl (Error (lit ''ENOENT'')))\<rparr>
            (lit ''file:///missing.ts'') (Single (lit ''/missing.ts'')) =
          Inr \<lparr>contents = [\<lparr>uri = lit ''file:///missing.ts'', text_of = t\<rparr>]\<rparr> \<and>
        prefix (lit ''Error reading file:'') t \<and>
        t = lit ''Error reading file: '' @ lit ''ENOENT''"
    by fastforce
  from one two show ?thesis by blast
qed

section \<open>Properties of analyze-vpc: the access check\<close>

text \<open>
  C6. When the access check on the path throws, the tool returns (it throws nothing) a
  result flagged as an error whose text is the fixed message followed by the path,
  whatever a read of the path would have given. Both builds of the tool do so.
\<close>

theorem analyze_inaccessible:
  "access env filePath = Inl err \<Longrightarrow>
   analyze_vpc env filePath =
     Inr \<lparr>content = [Plain (lit ''Error: File does not exist or is not accessible: '' @ filePath)],
          isError = Some True\<rparr> \<and>
   analyze_vpc_placeholder env filePath =
     Inr \<lparr>content = [Plain (lit ''Error: File does not exist or is not accessible: '' @ filePath)],
          isError = Some True\<rparr>"
  by (simp add: analyze_vpc_def analyze_vpc_placeholder_def try_catch_def)

theorem analyze_inaccessible_witness:
  "access \<lparr>access = (\<lambda>p. Inl (Error (lit ''ENOENT''))),
           readFile = (\<lambda>p. Inr (lit ''new Vpc(''))\<rparr> (lit ''/missing.ts'') =
     Inl (Error (lit ''ENOENT'')) \<and>
   analyze_vpc \<lparr>access = (\<lambda>p. Inl (Error (lit ''ENOENT''))),
                readFile = (\<lambda>p. Inr (lit ''new Vpc(''))\<rparr> (lit ''/missing.ts'') =
     Inr \<lparr>content = [Plain (lit ''Error: File does not exist or is not accessible: '' @
                               lit ''/missing.ts'')],
          isError = Some True\<rparr> \<and>
   analyze_vpc_placeholder \<lparr>access = (\<lambda>p. Inl (Error (lit ''ENOENT''))),
                readFile = (\<lambda>p. Inr (lit ''new Vpc(''))\<rparr> (lit ''/missing.ts'') =
     Inr \<lparr>content = [Plain (lit ''Error: File does not exist or is not accessible: '' @
                               lit ''/missing.ts'')],
          isError = Some True\<rparr>"
proof -
  have a: "access \<lparr>access = (\<lambda>p. Inl (Error (lit ''ENOENT''))),
           readFile = (\<lambda>p. Inr (lit ''new Vpc(''))\<rparr> (lit ''/missing.ts'') =
     Inl (Error (lit ''ENOENT''))"
    by simp
  from analyze_inaccessible [OF a] a show ?thesis by blast
qed

section \<open>The matcher and the language of a pattern\<close>

lemma star_nonempty_step:
  assumes "m \<in> star L" and "m \<noteq> []"
  shows "\<exists>u v. m = u @ v \<and> u \<in> L \<and> u \<noteq> [] \<and> v \<in> star L"
  using assms
proof (induction rule: star.induct)
  case star_Nil
  then show ?case by simp
next
  case (star_App u v)
  show ?case
  proof (cases "u = []")
    case True
    with star_App show ?thesis by simp
  next
    case False
    with star_App.hyps show ?thesis by blast
  qed
qed

declare run.simps(6) [simp del]

declare run.simps(7) [simp del]

declare match_all.simps [simp del]

declare replace_all.simps [simp del]

lemma run_Star_mem:
  "x \<in> set (run (Star a) (s, k)) \<longleftrightarrow>
     x = (s, k) \<or>
     (\<exists>st \<in> set (run a (s, reset a k)). length (fst st) < length s \<and> x \<in> set (run (Star a) st))"
  by (subst run.simps) (auto split: if_splits)

lemma run_LazyStar_mem:
  "x \<in> set (run (LazyStar a) (s, k)) \<longleftrightarrow>
     x = (s, k) \<or>
     (\<exists>st \<in> set (run a (s, reset a k)).
        length (fst st) < length s \<and> x \<in> set (run (LazyStar a) st))"
  by (subst run.simps) (auto split: if_splits)

lemma run_suffix: "(s', k') \<in> set (run r (s, k)) \<Longrightarrow> suffix s' s"
proof (induction r "(s, k)" arbitrary: s k s' k' rule: run.induct)
  case (1 s k)
  then show ?case by simp
next
  case (2 c s k)
  then show ?case by (auto split: list.splits if_splits simp: suffix_Cons)
next
  case (3 p s k)
  then show ?case by (auto split: list.splits if_splits simp: suffix_Cons)
next
  case (4 a b s k)
  from "4.prems" obtain t j where mid: "(t, j) \<in> set (run a (s, k))" "(s', k') \<in> set (run b (t, j))"
    by auto
  from "4.hyps"(1) mid(1) have "suffix t s" by blast
  moreover from "4.hyps"(2) mid have "suffix s' t" by blast
  ultimately show ?case using suffix_order.trans by blast
next
  case (5 a s k)
  then show ?case by auto
next
  case (6 a s k)
  from "6.prems" consider "s' = s"
    | t j where "(t, j) \<in> set (run a (s, reset a k))" "length t < length s"
        "(s', k') \<in> set (run (Star a) (t, j))"
    by (auto simp: run_Star_mem [of _ a s k])
  then show ?case
  proof cases
    case 1
    then show ?thesis by simp
  next
    case 2
    from "6.hyps"(1) 2(1) have "suffix t s" by blast
    moreover from "6.hyps"(2) 2 have "suffix s' t" by fastforce
    ultimately show ?thesis using suffix_order.trans by blast
  qed
next
  case (7 a s k)
  from "7.prems" consider "s' = s"
    | t j where "(t, j) \<in> set (run a (s, reset a k))" "length t < length s"
        "(s', k') \<in> set (run (LazyStar a) (t, j))"
    by (auto simp: run_LazyStar_mem [of _ a s k])
  then show ?case
  proof cases
    case 1
    then show ?thesis by simp
  next
    case 2
    from "7.hyps"(1) 2(1) have "suffix t s" by blast
    moreover from "7.hyps"(2) 2 have "suffix s' t" by fastforce
    ultimately show ?thesis using suffix_order.trans by blast
  qed
next
  case (8 a s k)
  then show ?case by auto
qed

lemma run_sound: "(s', k') \<in> set (run r (s, k)) \<Longrightarrow> \<exists>m \<in> lang r. s = m @ s'"
proof (induction r "(s, k)" arbitrary: s k s' k' rule: run.induct)
  case (1 s k)
  then show ?case by simp
next
  case (2 c s k)
  then show ?case by (auto split: list.splits if_splits)
next
  case (3 p s k)
  then show ?case by (auto split: list.splits if_splits)
next
  case (4 a b s k)
  from "4.prems" obtain t j where mid: "(t, j) \<in> set (run a (s, k))" "(s', k') \<in> set (run b (t, j))"
    by auto
  from "4.hyps"(1) mid(1) obtain u where u: "u \<in> lang a" "s = u @ t" by blast
  from "4.hyps"(2) mid obtain v where v: "v \<in> lang b" "t = v @ s'" by blast
  from u v have "u @ v \<in> lang (Seq a b)" "s = (u @ v) @ s'" by auto
  then show ?case by blast
next
  case (5 a s k)
  then show ?case by auto
next
  case (6 a s k)
  from "6.prems" consider "s' = s"
    | t j where "(t, j) \<in> set (run a (s, reset a k))" "length t < length s"
        "(s', k') \<in> set (run (Star a) (t, j))"
    by (auto simp: run_Star_mem [of _ a s k])
  then show ?case
  proof cases
    case 1
    have "[] \<in> star (lang a)" by (rule star_Nil)
    with 1 show ?thesis by simp
  next
    case 2
    from "6.hyps"(1) 2(1) obtain u where u: "u \<in> lang a" "s = u @ t" by blast
    from 2(2) have "length (fst (t, j)) < length s" by simp
    from "6.hyps"(2) [OF 2(1) this 2(3)]
    obtain v where v: "v \<in> lang (Star a)" "t = v @ s'" by blast
    from v(1) have "v \<in> star (lang a)" by simp
    with u(1) have "u @ v \<in> star (lang a)" by (rule star_App)
    then have "u @ v \<in> lang (Star a)" by simp
    moreover from u(2) v(2) have "s = (u @ v) @ s'" by simp
    ultimately show ?thesis by blast
  qed
next
  case (7 a s k)
  from "7.prems" consider "s' = s"
    | t j where "(t, j) \<in> set (run a (s, reset a k))" "length t < length s"
        "(s', k') \<in> set (run (LazyStar a) (t, j))"
    by (auto simp: run_LazyStar_mem [of _ a s k])
  then show ?case
  proof cases
    case 1
    have "[] \<in> star (lang a)" by (rule star_Nil)
    with 1 show ?thesis by simp
  next
    case 2
    from "7.hyps"(1) 2(1) obtain u where u: "u \<in> lang a" "s = u @ t" by blast
    from 2(2) have "length (fst (t, j)) < length s" by simp
    from "7.hyps"(2) [OF 2(1) this 2(3)]
    obtain v where v: "v \<in> lang (LazyStar a)" "t = v @ s'" by blast
    from v(1) have "v \<in> star (lang a)" by simp
    with u(1) have "u @ v \<in> star (lang a)" by (rule star_App)
    then have "u @ v \<in> lang (LazyStar a)" by simp
    moreover from u(2) v(2) have "s = (u @ v) @ s'" by simp
    ultimately show ?thesis by blast
  qed
next
  case (8 a s k)
  then show ?case by auto
qed

lemma run_complete: "m \<in> lang r \<Longrightarrow> \<exists>k'. (s', k') \<in> set (run r (m @ s', k))"
proof (induction r arbitrary: m s' k)
  case Eps
  then show ?case by simp
next
  case (Lit c)
  then show ?case by simp
next
  case (Cls p)
  then show ?case by auto
next
  case (Seq a b)
  from Seq.prems obtain u v where uv: "m = u @ v" "u \<in> lang a" "v \<in> lang b" by auto
  from Seq.IH(1) [OF uv(2)] obtain j where j: "(v @ s', j) \<in> set (run a (u @ v @ s', k))"
    by blast
  from Seq.IH(2) [OF uv(3)] obtain k' where "(s', k') \<in> set (run b (v @ s', j))"
    by blast
  with j uv(1) show ?case by auto
next
  case (Opt a)
  show ?case
  proof (cases "m = []")
    case True
    then show ?thesis by simp
  next
    case False
    with Opt.prems have "m \<in> lang a" by simp
    from Opt.IH [OF this] obtain k' where "(s', k') \<in> set (run a (m @ s', reset a k))"
      by blast
    with False show ?thesis by auto
  qed
next
  case (Star a)
  from Star.prems have "m \<in> star (lang a)" by simp
  then show ?case
  proof (induction "length m" arbitrary: m k rule: less_induct)
    case less
    show ?case
    proof (cases "m = []")
      case True
      then show ?thesis by (auto simp: run_Star_mem [of _ a s' k] run_LazyStar_mem [of _ a s' k])
    next
      case False
      from star_nonempty_step [OF less.prems False]
      obtain u v where uv: "m = u @ v" "u \<in> lang a" "u \<noteq> []" "v \<in> star (lang a)"
        by blast
      from Star.IH [OF uv(2)]
      obtain j where j: "(v @ s', j) \<in> set (run a (u @ v @ s', reset a k))" by blast
      from uv(1,3) have "length v < length m" by simp
      from less.hyps [OF this uv(4)]
      obtain k' where k': "(s', k') \<in> set (run (Star a) (v @ s', j))" by blast
      from uv(3) have "length (fst (v @ s', j)) < length (u @ v @ s')" by simp
      with j k' have "(s', k') \<in> set (run (Star a) (u @ v @ s', k))"
        unfolding run_Star_mem [of _ a "u @ v @ s'" k] by blast
      with uv(1) show ?thesis by auto
    qed
  qed
next
  case (LazyStar a)
  from LazyStar.prems have "m \<in> star (lang a)" by simp
  then show ?case
  proof (induction "length m" arbitrary: m k rule: less_induct)
    case less
    show ?case
    proof (cases "m = []")
      case True
      then show ?thesis by (auto simp: run_Star_mem [of _ a s' k] run_LazyStar_mem [of _ a s' k])
    next
      case False
      from star_nonempty_step [OF less.prems False]
      obtain u v where uv: "m = u @ v" "u \<in> lang a" "u \<noteq> []" "v \<in> star (lang a)"
        by blast
      from LazyStar.IH [OF uv(2)]
      obtain j where j: "(v @ s', j) \<in> set (run a (u @ v @ s', reset a k))" by blast
      from uv(1,3) have "length v < length m" by simp
      from less.hyps [OF this uv(4)]
      obtain k' where k': "(s', k') \<in> set (run (LazyStar a) (v @ s', j))" by blast
      from uv(3) have "length (fst (v @ s', j)) < length (u @ v @ s')" by simp
      with j k' have "(s', k') \<in> set (run (LazyStar a) (u @ v @ s', k))"
        unfolding run_LazyStar_mem [of _ a "u @ v @ s'" k] by blast
      with uv(1) show ?thesis by auto
    qed
  qed
next
  case (Group a)
  from Group.IH [of m s' k] Group.prems
  obtain k' where "(s', k') \<in> set (run a (m @ s', k))" by auto
  then show ?case by force
qed

lemma match_at_None_iff: "match_at r s = None \<longleftrightarrow> \<not> (\<exists>m \<in> lang r. prefix m s)"
proof
  assume none: "match_at r s = None"
  show "\<not> (\<exists>m \<in> lang r. prefix m s)"
  proof
    assume "\<exists>m \<in> lang r. prefix m s"
    then obtain m s' where "m \<in> lang r" "s = m @ s'" by (auto simp: prefix_def)
    from run_complete [OF this(1), of s' None] this(2) have "run r (s, None) \<noteq> []" by auto
    with none show False by (simp add: match_at_def split: list.splits)
  qed
next
  assume no: "\<not> (\<exists>m \<in> lang r. prefix m s)"
  show "match_at r s = None"
  proof (cases "run r (s, None)")
    case Nil
    then show ?thesis by (simp add: match_at_def)
  next
    case (Cons st rest)
    then have "(fst st, snd st) \<in> set (run r (s, None))" by simp
    from run_sound [OF this] no show ?thesis by (auto simp: prefix_def)
  qed
qed

lemma match_all_Nil_iff: "match_all r s = [] \<longleftrightarrow> \<not> has_match r s"
proof (induction s)
  case Nil
  have "has_match r [] \<longleftrightarrow> (\<exists>m \<in> lang r. prefix m [])"
    by (auto simp: has_match_def)
  with match_at_None_iff [of r "[]"] show ?case
    by (subst match_all.simps) (auto split: option.splits)
next
  case (Cons c cs)
  have "has_match r (c # cs) \<longleftrightarrow> (\<exists>m \<in> lang r. prefix m (c # cs)) \<or> has_match r cs"
  proof
    assume "has_match r (c # cs)"
    then obtain ps m ss where d: "c # cs = ps @ m @ ss" "m \<in> lang r"
      by (auto simp: has_match_def)
    show "(\<exists>m \<in> lang r. prefix m (c # cs)) \<or> has_match r cs"
    proof (cases ps)
      case Nil
      with d show ?thesis by (auto simp: prefix_def)
    next
      case (Cons p ps')
      with d have "cs = ps' @ m @ ss" by simp
      with d(2) show ?thesis by (auto simp: has_match_def)
    qed
  next
    assume "(\<exists>m \<in> lang r. prefix m (c # cs)) \<or> has_match r cs"
    then show "has_match r (c # cs)"
    proof
      assume "\<exists>m \<in> lang r. prefix m (c # cs)"
      then obtain m ss where "m \<in> lang r" "c # cs = [] @ m @ ss" by (auto simp: prefix_def)
      then show ?thesis unfolding has_match_def by blast
    next
      assume "has_match r cs"
      then obtain ps m ss where "cs = ps @ m @ ss" "m \<in> lang r"
        by (auto simp: has_match_def)
      then have "c # cs = (c # ps) @ m @ ss" by simp
      with \<open>m \<in> lang r\<close> show ?thesis unfolding has_match_def by blast
    qed
  qed
  with Cons.IH match_at_None_iff [of r "c # cs"] show ?case
    by (subst match_all.simps) (auto split: option.splits)
qed

section \<open>Properties of analyze-vpc: the construct pattern\<close>

lemma example_matches:
  "match_all vpcPattern (lit ''new Vpc(this, 'X', { cidr: '10.0.0.0/16' })'') = [lit ''new Vpc('']"
  by (simp add: vpcPattern_def lit_def is_space_def match_at_def Plus_def reset_def run.simps(6,7)
      match_all.simps)

lemma example_config:
  "match_first fullVpcPattern (lit ''new Vpc(this, 'X', { cidr: '10.0.0.0/16' })'') =
     Some (lit ''new Vpc(this, 'X', { cidr: '10.0.0.0/16' })'',
           Some (lit ''{ cidr: '10.0.0.0/16' }''))"
  by (simp add: fullVpcPattern_def lit_def is_space_def match_at_def Plus_def reset_def run.simps(6,7))

lemma example_trim: "trim (lit ''{ cidr: '10.0.0.0/16' }'') = lit ''{ cidr: '10.0.0.0/16' }''"
  by (simp add: trim_def lit_def is_space_def)

text \<open>
  C8. For an accessible file whose text is exactly
  \<^verbatim>\<open>new Vpc(this, 'X', { cidr: '10.0.0.0/16' })\<close> the analysis counts one construct and
  lists one match, \<^verbatim>\<open>new Vpc(\<close>; the configuration it extracts is
  \<^verbatim>\<open>{ cidr: '10.0.0.0/16' }\<close>.
\<close>

theorem analyze_example:
  assumes "access env filePath = Inr ()"
    and "readFile env filePath = Inr (lit ''new Vpc(this, 'X', { cidr: '10.0.0.0/16' })'')"
  shows "\<exists>a. analyze_vpc env filePath = Inr \<lparr>content = [Json_analysis a], isError = None\<rparr> \<and>
           vpcConstructs a = 1 \<and> length (matches a) = 1 \<and>
           matches a = [lit ''new Vpc(''] \<and>
           config a = Some (lit ''{ cidr: '10.0.0.0/16' }'') \<and>
           migrationReady a \<and> file_of a = filePath"
proof -
  have ne: "lit ''{ cidr: '10.0.0.0/16' }'' \<noteq> []" by (simp add: lit_def)
  have "analyze_vpc env filePath =
          Inr \<lparr>content = [Json_analysis
                 \<lparr>file_of = filePath, vpcConstructs = 1, matches = [lit ''new Vpc(''],
                  config = Some (lit ''{ cidr: '10.0.0.0/16' }''), migrationReady = True\<rparr>],
               isError = None\<rparr>"
    by (simp add: analyze_vpc_def try_catch_def Let_def assms example_matches example_config
        example_trim ne)
  then show ?thesis by simp
qed

theorem analyze_example_witness:
  "access \<lparr>access = (\<lambda>p. Inr ()),
           readFile = (\<lambda>p. Inr (lit ''new Vpc(this, 'X', { cidr: '10.0.0.0/16' })''))\<rparr>
          (lit ''/app/lib/stack.ts'') = Inr () \<and>
   readFile \<lparr>access = (\<lambda>p. Inr ()),
             readFile = (\<lambda>p. Inr (lit ''new Vpc(this, 'X', { cidr: '10.0.0.0/16' })''))\<rparr>
          (lit ''/app/lib/stack.ts'') = Inr (lit ''new Vpc(this, 'X', { cidr: '10.0.0.0/16' })'') \<and>
   (\<exists>a. analyze_vpc \<lparr>access = (\<lambda>p. Inr ()),
             readFile = (\<lambda>p. Inr (lit ''new Vpc(this, 'X', { cidr: '10.0.0.0/16' })''))\<rparr>
          (lit ''/app/lib/stack.ts'') = Inr \<lparr>content = [Json_analysis a], isError = None\<rparr> \<and>
        vpcConstructs a = 1 \<and> length (matches a) = 1)"
proof -
  have a: "access \<lparr>access = (\<lambda>p. Inr ()),
           readFile = (\<lambda>p. Inr (lit ''new Vpc(this, 'X', { cidr: '10.0.0.0/16' })''))\<rparr>
          (lit ''/app/lib/stack.ts'') = Inr ()" by simp
  have r: "readFile \<lparr>access = (\<lambda>p. Inr ()),
             readFile = (\<lambda>p. Inr (lit ''new Vpc(this, 'X', { cidr: '10.0.0.0/16' })''))\<rparr>
          (lit ''/app/lib/stack.ts'') = Inr (lit ''new Vpc(this, 'X', { cidr: '10.0.0.0/16' })'')"
    by simp
  from analyze_example [OF a r] a r show ?thesis by blast
qed

lemma match_at_Some:
  assumes "match_at r s = Some (m, k, rest)"
  shows "m \<in> lang r \<and> s = m @ rest"
proof -
  from assms have mem: "(rest, k) \<in> set (run r (s, None))"
    and m: "m = take (length s - length rest) s"
    by (auto simp: match_at_def split: list.splits)
  from run_sound [OF mem] obtain m' where "m' \<in> lang r" "s = m' @ rest" by blast
  with m show ?thesis by simp
qed

lemma match_all_elements:
  "x \<in> set (match_all r s) \<Longrightarrow> x \<in> lang r \<and> sublist x s"
proof (induction "length s" arbitrary: s rule: less_induct)
  case less
  show ?case
  proof (cases "match_at r s")
    case None
    show ?thesis
    proof (cases s)
      case Nil
      with None less.prems show ?thesis by (simp add: match_all.simps [of r "[]"])
    next
      case (Cons c cs)
      with None less.prems have "x \<in> set (match_all r cs)"
        by (simp add: match_all.simps [of r "c # cs"])
      moreover from Cons have "length cs < length s" by simp
      ultimately have "x \<in> lang r \<and> sublist x cs" using less.hyps by blast
      with Cons show ?thesis by (auto simp: sublist_Cons_right)
    qed
  next
    case (Some triple)
    obtain m k rest where t: "triple = (m, k, rest)" by (cases triple)
    from match_at_Some [of r s m k rest] Some t have m: "m \<in> lang r" "s = m @ rest" by simp_all
    show ?thesis
    proof (cases "x = m")
      case True
      with m show ?thesis by auto
    next
      case False
      show ?thesis
      proof (cases "m = []")
        case True
        show ?thesis
        proof (cases s)
          case Nil
          with Some t True False less.prems show ?thesis
            by (simp add: match_all.simps [of r "[]"])
        next
          case (Cons c cs)
          with Some t True False less.prems have "x \<in> set (match_all r cs)"
            by (simp add: match_all.simps [of r "c # cs"])
          moreover from Cons have "length cs < length s" by simp
          ultimately have "x \<in> lang r \<and> sublist x cs" using less.hyps by blast
          with Cons show ?thesis by (auto simp: sublist_Cons_right)
        qed
      next
        case nonempty: False
        with Some t False less.prems have "x \<in> set (match_all r rest)"
          by (simp add: match_all.simps [of r s])
        moreover from nonempty m(2) have "length rest < length s" by simp
        ultimately have "x \<in> lang r \<and> sublist x rest" using less.hyps by blast
        with m(2) show ?thesis by (auto simp: sublist_append)
      qed
    qed
  qed
qed

lemma has_match_iff: "has_match r s \<longleftrightarrow> match_all r s \<noteq> []"
  by (simp add: match_all_Nil_iff)

text \<open>
  C4. For an accessible, readable file the list of matches is what the global search for
  the construct pattern finds in the text of the file: every match is a part of the text
  that is in the language of the pattern, and the list is empty exactly when no part of
  the text is in that language. The count is the length of the list, and the file is
  flagged as ready for migration exactly when the count is positive, that is, exactly
  when the text has a match of the pattern. In particular a text without a match gives
  an empty list and a false flag.
\<close>

theorem analyze_construct_count:
  assumes "access env filePath = Inr ()" and "readFile env filePath = Inr c"
  shows "\<exists>a. analyze_vpc env filePath = Inr \<lparr>content = [Json_analysis a], isError = None\<rparr> \<and>
           matches a = match_all vpcPattern c \<and>
           (\<forall>m \<in> set (matches a). m \<in> lang vpcPattern \<and> sublist m c) \<and>
           vpcConstructs a = length (matches a) \<and>
           (migrationReady a \<longleftrightarrow> vpcConstructs a > 0) \<and>
           (migrationReady a \<longleftrightarrow> has_match vpcPattern c) \<and>
           (\<not> has_match vpcPattern c \<longrightarrow>
              \<not> migrationReady a \<and> matches a = [] \<and> vpcConstructs a = 0 \<and> config a = None) \<and>
           (has_match vpcPattern c \<longrightarrow>
              migrationReady a \<and> matches a \<noteq> [] \<and> vpcConstructs a > 0)"
proof -
  have el: "\<forall>m \<in> set (match_all vpcPattern c). m \<in> lang vpcPattern \<and> sublist m c"
    using match_all_elements [of _ vpcPattern c] by blast
  show ?thesis
    using el
    by (simp add: analyze_vpc_def try_catch_def Let_def assms has_match_iff)
qed

theorem analyze_construct_count_witness:
  "access \<lparr>access = (\<lambda>p. Inr ()), readFile = (\<lambda>p. Inr (lit ''const vpc = 1;''))\<rparr>
          (lit ''/app/lib/stack.ts'') = Inr () \<and>
   readFile \<lparr>access = (\<lambda>p. Inr ()), readFile = (\<lambda>p. Inr (lit ''const vpc = 1;''))\<rparr>
          (lit ''/app/lib/stack.ts'') = Inr (lit ''const vpc = 1;'') \<and>
   \<not> has_match vpcPattern (lit ''const vpc = 1;'') \<and>
   (\<exists>a. analyze_vpc \<lparr>access = (\<lambda>p. Inr ()), readFile = (\<lambda>p. Inr (lit ''const vpc = 1;''))\<rparr>
          (lit ''/app/lib/stack.ts'') = Inr \<lparr>content = [Json_analysis a], isError = None\<rparr> \<and>
        \<not> migrationReady a \<and> matches a = [] \<and> vpcConstructs a = 0) \<and>
   access \<lparr>access = (\<lambda>p. Inr ()),
           readFile = (\<lambda>p. Inr (lit ''const v = new ec2.Vpc(this, 'Net');''))\<rparr>
          (lit ''/app/lib/stack.ts'') = Inr () \<and>
   readFile \<lparr>access = (\<lambda>p. Inr ()),
             readFile = (\<lambda>p. Inr (lit ''const v = new ec2.Vpc(this, 'Net');''))\<rparr>
          (lit ''/app/lib/stack.ts'') = Inr (lit ''const v = new ec2.Vpc(this, 'Net');'') \<and>
   has_match vpcPattern (lit ''const v = new ec2.Vpc(this, 'Net');'') \<and>
   (\<exists>a. analyze_vpc \<lparr>access = (\<lambda>p. Inr ()),
             readFile = (\<lambda>p. Inr (lit ''const v = new ec2.Vpc(this, 'Net');''))\<rparr>
          (lit ''/app/lib/stack.ts'') = Inr \<lparr>content = [Json_analysis a], isError = None\<rparr> \<and>
        migrationReady a \<and> matches a = [lit ''new ec2.Vpc(''] \<and> vpcConstructs a = 1)"
proof -
  have a: "access \<lparr>access = (\<lambda>p. Inr ()), readFile = (\<lambda>p. Inr (lit ''const vpc = 1;''))\<rparr>
          (lit ''/app/lib/stack.ts'') = Inr ()" by simp
  have r: "readFile \<lparr>access = (\<lambda>p. Inr ()), readFile = (\<lambda>p. Inr (lit ''const vpc = 1;''))\<rparr>
          (lit ''/app/lib/stack.ts'') = Inr (lit ''const vpc = 1;'')" by simp
  have "match_all vpcPattern (lit ''const vpc = 1;'') = []"
    by (simp add: vpcPattern_def lit_def is_space_def match_at_def Plus_def reset_def run.simps(6,7)
        match_all.simps)
  then have n: "\<not> has_match vpcPattern (lit ''const vpc = 1;'')"
    by (simp add: match_all_Nil_iff)
  from analyze_construct_count [OF a r] n
  have one: "\<exists>a. analyze_vpc \<lparr>access = (\<lambda>p. Inr ()), readFile = (\<lambda>p. Inr (lit ''const vpc = 1;''))\<rparr>
          (lit ''/app/lib/stack.ts'') = Inr \<lparr>content = [Json_analysis a], isError = None\<rparr> \<and>
        \<not> migrationReady a \<and> matches a = [] \<and> vpcConstructs a = 0"
    by blast
  have a': "access \<lparr>access = (\<lambda>p. Inr ()),
           readFile = (\<lambda>p. Inr (lit ''const v = new ec2.Vpc(this, 'Net');''))\<rparr>
          (lit ''/app/lib/stack.ts'') = Inr ()" by simp
  have r': "readFile \<lparr>access = (\<lambda>p. Inr ()),
             readFile = (\<lambda>p. Inr (lit ''const v = new ec2.Vpc(this, 'Net');''))\<rparr>
          (lit ''/app/lib/stack.ts'') = Inr (lit ''const v = new ec2.Vpc(this, 'Net');'')" by simp
  have ev: "match_all vpcPattern (lit ''const v = new ec2.Vpc(this, 'Net');'') = [lit ''new ec2.Vpc('']"
    by (simp add: vpcPattern_def lit_def is_space_def match_at_def Plus_def reset_def run.simps(6,7)
        match_all.simps)
  then have y: "has_match vpcPattern (lit ''const v = new ec2.Vpc(this, 'Net');'')"
    using match_all_Nil_iff [of vpcPattern "lit ''const v = new ec2.Vpc(this, 'Net');''"] by simp
  from analyze_construct_count [OF a' r'] obtain b where b:
    "analyze_vpc \<lparr>access = (\<lambda>p. Inr ()),
             readFile = (\<lambda>p. Inr (lit ''const v = new ec2.Vpc(this, 'Net');''))\<rparr>
          (lit ''/app/lib/stack.ts'') = Inr \<lparr>content = [Json_analysis b], isError = None\<rparr>"
    "matches b = match_all vpcPattern (lit ''const v = new ec2.Vpc(this, 'Net');'')"
    "vpcConstructs b = length (matches b)"
    "migrationReady b \<longleftrightarrow> vpcConstructs b > 0"
    by (elim exE conjE) (rule that, assumption+)
  from b(2,3,4) ev have "migrationReady b \<and> matches b = [lit ''new ec2.Vpc(''] \<and> vpcConstructs b = 1"
    by simp
  with b(1) have two: "\<exists>a. analyze_vpc \<lparr>access = (\<lambda>p. Inr ()),
             readFile = (\<lambda>p. Inr (lit ''const v = new ec2.Vpc(this, 'Net');''))\<rparr>
          (lit ''/app/lib/stack.ts'') = Inr \<lparr>content = [Json_analysis a], isError = None\<rparr> \<and>
        migrationReady a \<and> matches a = [lit ''new ec2.Vpc(''] \<and> vpcConstructs a = 1"
    by blast
  from a r n one a' r' y two show ?thesis by blast
qed

section \<open>Properties of refactor-vpc\<close>

lemma index_of_None_iff: "index_of s t = None \<longleftrightarrow> \<not> includes_js s t"
  by (induction s) auto

lemma replace_string_absent: "\<not> includes_js s pat \<Longrightarrow> replace_string s pat template = s"
  using index_of_None_iff [of s pat] by (simp add: replace_string_def)

lemma run_Seq_mem:
  "x \<in> set (run (Seq a b) st) \<longleftrightarrow> (\<exists>st' \<in> set (run a st). x \<in> set (run b st'))"
  by (cases st) auto

lemma run_Eps_mem: "x \<in> set (run Eps st) \<longleftrightarrow> x = st"
  by (cases st) auto

lemma run_suffix_state: "st' \<in> set (run r st) \<Longrightarrow> \<exists>p. fst st = p @ fst st'"
  using run_suffix [of "fst st'" "snd st'" r "fst st" "snd st"] by (auto simp: suffix_def)

lemma run_word_mem:
  "st' \<in> set (run (word w) st) \<Longrightarrow> fst st = w @ fst st' \<and> snd st' = snd st"
proof (induction w arbitrary: st)
  case Nil
  then show ?case by (simp add: run_Eps_mem)
next
  case (Cons c w)
  from Cons.prems obtain mid where mid: "mid \<in> set (run (Lit c) st)" "st' \<in> set (run (word w) mid)"
    by (auto simp: run_Seq_mem)
  from mid(1) have "fst st = c # fst mid \<and> snd mid = snd st"
    by (cases st) (auto split: list.splits if_splits)
  with Cons.IH [OF mid(2)] show ?case by simp
qed

lemma run_Group_mem:
  assumes "st' \<in> set (run (Group a) st)"
  shows "\<exists>x. fst st = x @ fst st' \<and> snd st' = Some x"
proof -
  obtain s k where st: "st = (s, k)" by (cases st)
  from assms st obtain j where j: "(fst st', j) \<in> set (run a (s, k))"
    and k': "snd st' = Some (take (length s - length (fst st')) s)"
    by auto
  from run_suffix [OF j] obtain x where "s = x @ fst st'" by (auto simp: suffix_def)
  with k' st show ?thesis by simp
qed

lemma subnetPattern_match:
  assumes "match_at subnetPattern s = Some (m, k, rest)"
  shows "\<exists>p x. s = p @ [91] @ x @ [93] @ rest \<and> k = Some x \<and> m = p @ [91] @ x @ [93]"
proof -
  from assms have mem: "(rest, k) \<in> set (run subnetPattern (s, None))"
    and m: "m = take (length s - length rest) s"
    by (auto simp: match_at_def split: list.splits)
  from mem obtain st1 st2 st3 st4 where
    1: "st1 \<in> set (run (word (lit ''subnetConfiguration:'')) (s, None))" and
    2: "st2 \<in> set (run (Star (Cls is_space)) st1)" and
    3: "st3 \<in> set (run (word (lit ''['')) st2)" and
    4: "st4 \<in> set (run (Group (Plus (Cls (\<lambda>u. u \<noteq> 93)))) st3)" and
    5: "(rest, k) \<in> set (run (word (lit '']'')) st4)"
    unfolding subnetPattern_def seq.simps run_Seq_mem run_Eps_mem by blast
  from run_suffix_state [OF 1] obtain p1 where p1: "s = p1 @ fst st1" by auto
  from run_suffix_state [OF 2] obtain p2 where p2: "fst st1 = p2 @ fst st2" by auto
  from run_word_mem [OF 3] have p3: "fst st2 = [91] @ fst st3" by (simp add: lit_def)
  from run_Group_mem [OF 4] obtain x where x: "fst st3 = x @ fst st4" "snd st4 = Some x" by blast
  from run_word_mem [OF 5] have p5: "fst st4 = [93] @ rest" "k = snd st4"
    by (simp_all add: lit_def)
  from p1 p2 p3 x p5 have s: "s = (p1 @ p2) @ [91] @ x @ [93] @ rest" by simp
  with m have "m = (p1 @ p2) @ [91] @ x @ [93]" by simp
  with s x(2) p5(2) show ?thesis by blast
qed

lemma subnet_substitution:
  "get_substitution m preceding following [Some x] (lit ''new SubnetV2([$1])'') =
     lit ''new SubnetV2('' @ [91] @ x @ [93] @ lit '')''"
  by (simp add: lit_def is_digit_def capture_text_def)

lemma has_group_subnetPattern: "has_group subnetPattern"
  by (simp add: subnetPattern_def Plus_def)

lemma sublist_split_at:
  assumes "c \<notin> set l" and "sublist l (t1 @ c # t2)"
  shows "sublist l t1 \<or> sublist l t2"
proof -
  from assms(2) consider "sublist l t1" | "sublist l (c # t2)"
    | l1 l2 where "l = l1 @ l2" "suffix l1 t1" "prefix l2 (c # t2)"
    unfolding sublist_append by blast
  then show ?thesis
  proof cases
    case 1
    then show ?thesis by simp
  next
    case 2
    then have "prefix l (c # t2) \<or> sublist l t2" by (simp add: sublist_Cons_right)
    with assms(1) show ?thesis by (cases l) auto
  next
    case 3
    with assms(1) have "l2 = []" by (cases l2) auto
    with 3 show ?thesis by auto
  qed
qed

lemma sublist_drop_right:
  assumes "l \<noteq> []" and "last l \<notin> set n" and "sublist l (a @ n)"
  shows "sublist l a"
  using assms(2,3)
proof (induction n rule: rev_induct)
  case Nil
  then show ?case by simp
next
  case (snoc y ys)
  from assms(1) obtain b where l: "l = b @ [last l]" by (metis append_butlast_last_id)
  from snoc.prems(2) have "sublist (b @ [last l]) ((a @ ys) @ [y])" using l by simp
  then have "last l = y \<and> suffix b (a @ ys) \<or> sublist (b @ [last l]) (a @ ys)"
    by (simp only: snoc_sublist_snoc)
  with snoc.prems(1) l have "sublist l (a @ ys)" by auto
  with snoc show ?case by simp
qed

lemma sublist_drop_left:
  assumes "l \<noteq> []" and "hd l \<notin> set n" and "sublist l (n @ a)"
  shows "sublist l a"
  using assms(2,3)
proof (induction n)
  case Nil
  then show ?case by simp
next
  case (Cons y ys)
  from Cons.prems(2) have "prefix l (y # ys @ a) \<or> sublist l (ys @ a)"
    by (simp add: sublist_Cons_right)
  with assms(1) Cons.prems(1) have "sublist l (ys @ a)" by (cases l) auto
  with Cons show ?case by simp
qed

lemma sublist_mid: "sublist l x \<Longrightarrow> sublist l (a @ x @ b)"
  by (metis sublist_appendI sublist_order.order.trans)

lemma replace_all_subnet_absent:
  assumes l: "l \<noteq> []" "91 \<notin> set l" "93 \<notin> set l"
      "last l \<notin> set (lit ''new SubnetV2('')" "hd l \<notin> set (lit '')'')"
    and "sublist l (a @ replace_all subnetPattern (lit ''new SubnetV2([$1])'') pre s)"
  shows "sublist l (a @ s)"
  using assms(6)
proof (induction "length s" arbitrary: s pre a rule: less_induct)
  case less
  show ?case
  proof (cases "match_at subnetPattern s")
    case None
    show ?thesis
    proof (cases s)
      case Nil
      with None less.prems show ?thesis by (simp add: replace_all.simps [of _ _ _ "[]"])
    next
      case (Cons c cs)
      with None less.prems
      have "sublist l ((a @ [c]) @ replace_all subnetPattern (lit ''new SubnetV2([$1])'') (pre @ [c]) cs)"
        by (simp add: replace_all.simps [of _ _ _ "c # cs"])
      moreover from Cons have "length cs < length s" by simp
      ultimately have "sublist l ((a @ [c]) @ cs)" by (rule less.hyps [rotated])
      with Cons show ?thesis by simp
    qed
  next
    case (Some triple)
    obtain m k rest where t: "triple = (m, k, rest)" by (cases triple)
    from subnetPattern_match [of s m k rest] Some t
    obtain p x where s: "s = p @ [91] @ x @ [93] @ rest" and k: "k = Some x"
      and m: "m = p @ [91] @ x @ [93]" by blast
    from m have mne: "m \<noteq> []" by simp
    from s have len: "length rest < length s" by simp
    from Some t mne k less.prems
    have "sublist l ((a @ lit ''new SubnetV2('' @ [91] @ x @ [93] @ lit '')'') @
            replace_all subnetPattern (lit ''new SubnetV2([$1])'') (pre @ m) rest)"
      by (simp add: replace_all.simps [of _ _ _ s] has_group_subnetPattern subnet_substitution)
    with len have "sublist l ((a @ lit ''new SubnetV2('' @ [91] @ x @ [93] @ lit '')'') @ rest)"
      by (rule less.hyps)
    then have "sublist l ((a @ lit ''new SubnetV2('') @ 91 # (x @ 93 # (lit '')'' @ rest)))"
      by simp
    from sublist_split_at [OF l(2) this]
    consider "sublist l (a @ lit ''new SubnetV2('')" | "sublist l (x @ 93 # (lit '')'' @ rest))"
      by blast
    then show ?thesis
    proof cases
      case 1
      from sublist_drop_right [OF l(1) l(4) 1] have "sublist l a" .
      then show ?thesis by (metis sublist_append)
    next
      case 2
      from sublist_split_at [OF l(3) 2]
      consider "sublist l x" | "sublist l (lit '')'' @ rest)" by blast
      then show ?thesis
      proof cases
        case 1
        then have "sublist l ((a @ p @ [91]) @ x @ ([93] @ rest))" by (rule sublist_mid)
        with s show ?thesis by simp
      next
        case 2
        from sublist_drop_left [OF l(1) l(5) 2] have "sublist l rest" .
        then have "sublist l ((a @ p @ [91] @ x @ [93]) @ rest @ [])" by (rule sublist_mid)
        with s show ?thesis by simp
      qed
    qed
  qed
qed

lemma replace_regex_subnet_absent:
  assumes "l \<noteq> []" "91 \<notin> set l" "93 \<notin> set l"
      "last l \<notin> set (lit ''new SubnetV2('')" "hd l \<notin> set (lit '')'')"
    and "\<not> includes_js s l"
  shows "\<not> includes_js (replace_regex s subnetPattern (lit ''new SubnetV2([$1])'')) l"
proof
  assume "includes_js (replace_regex s subnetPattern (lit ''new SubnetV2([$1])'')) l"
  then have "sublist l ([] @ replace_all subnetPattern (lit ''new SubnetV2([$1])'') [] s)"
    by (simp add: includes_js_sublist replace_regex_def)
  from replace_all_subnet_absent [OF assms(1-5) this] assms(6) show False
    by (simp add: includes_js_sublist)
qed

lemma refactor_frame:
  assumes "\<not> includes_js (if sub then f cdkCode else cdkCode) l1"
    and "\<not> includes_js (if sub then f cdkCode else cdkCode) l2"
  shows
    "(let refactoredCode = cdkCode;
          refactoredCode = (if sub then f refactoredCode else refactoredCode);
          refactoredCode =
            (if cidr then replace_string refactoredCode l1 t1 else refactoredCode);
          refactoredCode =
            (if ipam then replace_string refactoredCode l2 t2 else refactoredCode);
          requiredImports = [imp];
          importSection = join nl requiredImports;
          refactoredCode =
            (if \<not> includes_js refactoredCode m1 \<or>
                \<not> includes_js refactoredCode m2 \<or>
                \<not> includes_js refactoredCode m3
             then importSection @ sep @ refactoredCode
             else refactoredCode)
      in \<lparr>content = [Plain refactoredCode], isError = None\<rparr>) =
     (let code = (if sub then f cdkCode else cdkCode)
      in \<lparr>content =
            [Plain (if \<not> includes_js code m1 \<or> \<not> includes_js code m2 \<or> \<not> includes_js code m3
                    then imp @ sep @ code else code)],
          isError = None\<rparr>)"
proof (cases sub)
  case True
  with assms have "\<not> includes_js (f cdkCode) l1" "\<not> includes_js (f cdkCode) l2" by simp_all
  with True show ?thesis by (auto simp: Let_def replace_string_absent)
next
  case False
  with assms have "\<not> includes_js cdkCode l1" "\<not> includes_js cdkCode l2" by simp_all
  with False show ?thesis by (auto simp: Let_def replace_string_absent)
qed

lemma cidr_literal_facts:
  "lit ''ipAddresses: IpAddresses.cidr('$1')'' \<noteq> []"
  "91 \<notin> set (lit ''ipAddresses: IpAddresses.cidr('$1')'')"
  "93 \<notin> set (lit ''ipAddresses: IpAddresses.cidr('$1')'')"
  "last (lit ''ipAddresses: IpAddresses.cidr('$1')'') \<notin> set (lit ''new SubnetV2('')"
  "hd (lit ''ipAddresses: IpAddresses.cidr('$1')'') \<notin> set (lit '')'')"
  by (simp_all add: lit_def)

lemma ipam_literal_facts:
  "lit ''ipAddresses: IpAddresses.awsIpamAllocation('$1')'' \<noteq> []"
  "91 \<notin> set (lit ''ipAddresses: IpAddresses.awsIpamAllocation('$1')'')"
  "93 \<notin> set (lit ''ipAddresses: IpAddresses.awsIpamAllocation('$1')'')"
  "last (lit ''ipAddresses: IpAddresses.awsIpamAllocation('$1')'') \<notin> set (lit ''new SubnetV2('')"
  "hd (lit ''ipAddresses: IpAddresses.awsIpamAllocation('$1')'') \<notin> set (lit '')'')"
  by (simp_all add: lit_def)

text \<open>
  C10. The replacements gated by "cidr" and "IPAM" look for their first argument as a
  literal text, dollar sign and digit included. For code that does not contain either
  literal text, the two branches change nothing, whatever the approach says: the result
  is the code after the substitution gated by "Subnet", with the import block in front
  when the marker test asks for it.
\<close>

theorem refactor_literal_targets:
  assumes "\<not> includes_js cdkCode (lit ''ipAddresses: IpAddresses.cidr('$1')'')"
    and "\<not> includes_js cdkCode (lit ''ipAddresses: IpAddresses.awsIpamAllocation('$1')'')"
  shows "refactor_vpc cdkCode migrationApproach =
     (let code = (if includes_js migrationApproach (lit ''Subnet'')
                  then replace_regex cdkCode subnetPattern (lit ''new SubnetV2([$1])'')
                  else cdkCode)
      in \<lparr>content =
            [Plain (if \<not> includes_js code (lit ''SubnetConfiguration'') \<or>
                       \<not> includes_js code (lit ''IpAddresses'') \<or>
                       \<not> includes_js code (lit ''Ipam'')
                    then lit ''import { VpcV2, SubnetV2, IpAddresses } from '@aws-cdk/aws-ec2-alpha';'' @
                         lit ''\<newline>\<newline>'' @ code
                    else code)],
          isError = None\<rparr>)"
proof -
  have 1: "\<not> includes_js
             (if includes_js migrationApproach (lit ''Subnet'')
              then replace_regex cdkCode subnetPattern (lit ''new SubnetV2([$1])'') else cdkCode)
             (lit ''ipAddresses: IpAddresses.cidr('$1')'')"
    using replace_regex_subnet_absent [OF cidr_literal_facts assms(1)] assms(1) by simp
  have 2: "\<not> includes_js
             (if includes_js migrationApproach (lit ''Subnet'')
              then replace_regex cdkCode subnetPattern (lit ''new SubnetV2([$1])'') else cdkCode)
             (lit ''ipAddresses: IpAddresses.awsIpamAllocation('$1')'')"
    using replace_regex_subnet_absent [OF ipam_literal_facts assms(2)] assms(2) by simp
  show ?thesis
    unfolding refactor_vpc_def
    by (rule refactor_frame
          [where f = "\<lambda>c. replace_regex c subnetPattern (lit ''new SubnetV2([$1])'')"
             and sub = "includes_js migrationApproach (lit ''Subnet'')"
             and cdkCode = cdkCode, OF 1 2])
qed

theorem refactor_literal_targets_witness:
  "\<not> includes_js (lit ''ipAddresses: IpAddresses.cidr('10.0.0.0/16')'')
        (lit ''ipAddresses: IpAddresses.cidr('$1')'') \<and>
   \<not> includes_js (lit ''ipAddresses: IpAddresses.cidr('10.0.0.0/16')'')
        (lit ''ipAddresses: IpAddresses.awsIpamAllocation('$1')'') \<and>
   refactor_vpc (lit ''ipAddresses: IpAddresses.cidr('10.0.0.0/16')'') (lit ''cidr, IPAM'') =
     \<lparr>content =
        [Plain (lit ''import { VpcV2, SubnetV2, IpAddresses } from '@aws-cdk/aws-ec2-alpha';'' @
                lit ''\<newline>\<newline>'' @
                lit ''ipAddresses: IpAddresses.cidr('10.0.0.0/16')'')],
      isError = None\<rparr>"
proof -
  have 1: "\<not> includes_js (lit ''ipAddresses: IpAddresses.cidr('10.0.0.0/16')'')
        (lit ''ipAddresses: IpAddresses.cidr('$1')'')"
    by (simp add: lit_def)
  have 2: "\<not> includes_js (lit ''ipAddresses: IpAddresses.cidr('10.0.0.0/16')'')
        (lit ''ipAddresses: IpAddresses.awsIpamAllocation('$1')'')"
    by (simp add: lit_def)
  have 3: "\<not> includes_js (lit ''cidr, IPAM'') (lit ''Subnet'')"
    by (simp add: lit_def)
  have 4: "\<not> includes_js (lit ''ipAddresses: IpAddresses.cidr('10.0.0.0/16')'')
        (lit ''SubnetConfiguration'')"
    by (simp add: lit_def)
  from refactor_literal_targets [OF 1 2, of "lit ''cidr, IPAM''"] 1 2 3 4 show ?thesis
    by (simp add: Let_def)
qed

text \<open>
  The placeholder variant tests for a part of the statement it inserts: applied to its own
  result it adds the fixed comment again and no second import statement.
\<close>

lemma placeholder_import_marker:
  "includes_js
     (lit ''import { VpcV2, SubnetV2, IpAddresses, IpCidr, RouteTable } from '@aws-cdk/aws-ec2-alpha';\<newline>\<newline>'')
     (lit ''@aws-cdk/aws-ec2-alpha'')"
  by (simp add: lit_def)

lemma refactor_vpc_placeholder_imports_once:
  "\<exists>once.
     refactor_vpc_placeholder env cdkCode migrationApproach =
       Inr \<lparr>content = [Plain once], isError = None\<rparr> \<and>
     refactor_vpc_placeholder env' once migrationApproach' =
       Inr \<lparr>content =
              [Plain (lit ''// This is a placeholder for the AI-refactored code\<newline>// In a real implementation, this would be replaced with the AI service response\<newline>\<newline>'' @
                      once)],
            isError = None\<rparr>"
proof -
  define comment where "comment =
    lit ''// This is a placeholder for the AI-refactored code\<newline>// In a real implementation, this would be replaced with the AI service response\<newline>\<newline>''"
  define imp where "imp =
    lit ''import { VpcV2, SubnetV2, IpAddresses, IpCidr, RouteTable } from '@aws-cdk/aws-ec2-alpha';\<newline>\<newline>''"
  define marker where "marker = lit ''@aws-cdk/aws-ec2-alpha''"
  define once where
    "once = comment @ (if \<not> includes_js cdkCode marker then imp @ cdkCode else cdkCode)"
  have first: "refactor_vpc_placeholder env cdkCode migrationApproach =
      Inr \<lparr>content = [Plain once], isError = None\<rparr>"
    by (simp add: refactor_vpc_placeholder_def try_catch_def Let_def once_def comment_def
        imp_def marker_def)
  have "sublist marker imp"
    using placeholder_import_marker by (simp add: includes_js_sublist imp_def marker_def)
  then have "sublist marker (if \<not> includes_js cdkCode marker then imp @ cdkCode else cdkCode)"
    by (auto simp: includes_js_sublist sublist_append)
  then have "sublist marker once"
    by (simp add: once_def sublist_append)
  then have inc: "includes_js once marker" by (simp add: includes_js_sublist)
  have "refactor_vpc_placeholder env' once migrationApproach' =
      Inr \<lparr>content = [Plain (comment @ once)], isError = None\<rparr>"
    using inc unfolding marker_def
    by (simp add: refactor_vpc_placeholder_def try_catch_def Let_def comment_def)
  with first show ?thesis unfolding comment_def by blast
qed

text \<open>
  C2. Refactoring \<^verbatim>\<open>new ec2.Vpc(this, 'Net', {});\<close> with the approach "Subnet" puts the
  import block in front of the code; refactoring that result again puts a second import
  block in front of the first, so that the import statement occurs twice in the text.
\<close>

theorem refactor_twice_duplicates_imports:
  "refactor_vpc (lit ''new ec2.Vpc(this, 'Net', {});'') (lit ''Subnet'') =
     \<lparr>content =
        [Plain (lit ''import { VpcV2, SubnetV2, IpAddresses } from '@aws-cdk/aws-ec2-alpha';\<newline>\<newline>new ec2.Vpc(this, 'Net', {});'')],
      isError = None\<rparr> \<and>
   refactor_vpc
     (lit ''import { VpcV2, SubnetV2, IpAddresses } from '@aws-cdk/aws-ec2-alpha';\<newline>\<newline>new ec2.Vpc(this, 'Net', {});'')
     (lit ''Subnet'') =
     \<lparr>content =
        [Plain (lit ''import { VpcV2, SubnetV2, IpAddresses } from '@aws-cdk/aws-ec2-alpha';\<newline>\<newline>import { VpcV2, SubnetV2, IpAddresses } from '@aws-cdk/aws-ec2-alpha';\<newline>\<newline>new ec2.Vpc(this, 'Net', {});'')],
      isError = None\<rparr> \<and>
   occurrences
     (lit ''import { VpcV2, SubnetV2, IpAddresses } from '@aws-cdk/aws-ec2-alpha';\<newline>\<newline>import { VpcV2, SubnetV2, IpAddresses } from '@aws-cdk/aws-ec2-alpha';\<newline>\<newline>new ec2.Vpc(this, 'Net', {});'')
     (lit ''import { VpcV2, SubnetV2, IpAddresses } from '@aws-cdk/aws-ec2-alpha';'') = 2"
  by (simp add: refactor_vpc_def Let_def lit_def replace_regex_def replace_all.simps
      match_at_def subnetPattern_def Plus_def reset_def run.simps(6,7) is_space_def)

theorem refactor_twice_duplicates_imports_witness:
  "\<exists>once twice.
     refactor_vpc (lit ''new ec2.Vpc(this, 'Net', {});'') (lit ''Subnet'') =
       \<lparr>content = [Plain once], isError = None\<rparr> \<and>
     refactor_vpc once (lit ''Subnet'') = \<lparr>content = [Plain twice], isError = None\<rparr> \<and>
     1 < occurrences twice
           (lit ''import { VpcV2, SubnetV2, IpAddresses } from '@aws-cdk/aws-ec2-alpha';'')"
proof -
  from refactor_twice_duplicates_imports
  have a: "refactor_vpc (lit ''new ec2.Vpc(this, 'Net', {});'') (lit ''Subnet'') =
     \<lparr>content =
        [Plain (lit ''import { VpcV2, SubnetV2, IpAddresses } from '@aws-cdk/aws-ec2-alpha';\<newline>\<newline>new ec2.Vpc(this, 'Net', {});'')],
      isError = None\<rparr>"
    and b: "refactor_vpc
     (lit ''import { VpcV2, SubnetV2, IpAddresses } from '@aws-cdk/aws-ec2-alpha';\<newline>\<newline>new ec2.Vpc(this, 'Net', {});'')
     (lit ''Subnet'') =
     \<lparr>content =
        [Plain (lit ''import { VpcV2, SubnetV2, IpAddresses } from '@aws-cdk/aws-ec2-alpha';\<newline>\<newline>import { VpcV2, SubnetV2, IpAddresses } from '@aws-cdk/aws-ec2-alpha';\<newline>\<newline>new ec2.Vpc(this, 'Net', {});'')],
      isError = None\<rparr>"
    and c: "occurrences
     (lit ''import { VpcV2, SubnetV2, IpAddresses } from '@aws-cdk/aws-ec2-alpha';\<newline>\<newline>import { VpcV2, SubnetV2, IpAddresses } from '@aws-cdk/aws-ec2-alpha';\<newline>\<newline>new ec2.Vpc(this, 'Net', {});'')
     (lit ''import { VpcV2, SubnetV2, IpAddresses } from '@aws-cdk/aws-ec2-alpha';'') = 2"
    by blast+
  from c have "1 < occurrences
     (lit ''import { VpcV2, SubnetV2, IpAddresses } from '@aws-cdk/aws-ec2-alpha';\<newline>\<newline>import { VpcV2, SubnetV2, IpAddresses } from '@aws-cdk/aws-ec2-alpha';\<newline>\<newline>new ec2.Vpc(this, 'Net', {});'')
     (lit ''import { VpcV2, SubnetV2, IpAddresses } from '@aws-cdk/aws-ec2-alpha';'')"
    by simp
  with a b show ?thesis by blast
qed

end
